theory Spec2Isabelle
  imports Complex_Main "HOL-Library.Char_ord" "HOL-Library.List_Lexorder"
begin

section \<open>Lead routing: data model\<close>

text \<open>
  The repository holds two implementations of the lead router: the custom code action
  (functions \<^verbatim>\<open>routeLead\<close>, \<^verbatim>\<open>getNearestLocations\<close>, \<^verbatim>\<open>calculateLeadScore\<close>,
  \<^verbatim>\<open>checkLocationCapacity\<close>) and the class \<^verbatim>\<open>ProductionLeadRouter\<close> of
  \<^verbatim>\<open>production-router.js\<close>. Both are embedded; the definitions of the class carry the
  suffix \<open>_prod\<close> where a name would clash.

  Distances are exact reals and counts are integers. The raw quality signal of a lead is a
  whole number, as in all sample data of the sources; on whole numbers the double
  arithmetic of the scorers and the exact arithmetic used here round to the same score.
  A computed score is an integer or \<^verbatim>\<open>NaN\<close>. Property values are strings, numbers or
  absent (\<open>None\<close>). The fields \<^verbatim>\<open>id\<close> and \<^verbatim>\<open>zip\<close> of a lead and
  \<^verbatim>\<open>id\<close> and \<^verbatim>\<open>name\<close> of a location are written \<open>leadId\<close>, \<open>leadZip\<close>, \<open>locId\<close>
  and \<open>locName\<close>.
\<close>

datatype score = Score int | NaN

record lead =
  leadId :: "string option"
  leadZip :: "string option"
  leadScore :: "nat option"
  source :: "string option"
  phone :: "string option"
  email :: "string option"
  firstName :: "string option"
  finalScore :: "score option"

record location =
  locId :: string
  locName :: string
  zipCode :: string
  priority :: string
  status :: string
  dailyLeadCount :: "int option"

record coords =
  lat :: real
  lng :: real

record capacity =
  hasCapacity :: bool
  availableSlots :: int
  isOperational :: bool

text \<open>\<^verbatim>\<open>{ ...location, distance }\<close> and \<^verbatim>\<open>{ ...location, capacity }\<close>.\<close>

record located =
  loc :: location
  distance :: real

record candidate = located +
  capacity :: capacity

record config =
  ZIP_RADIUS_MILES :: real
  HIGH_SCORE_THRESHOLD :: int
  MAX_DAILY_LEADS_PER_LOCATION :: int
  FALLBACK_ENABLED :: bool

definition CONFIG :: config where
  "CONFIG = \<lparr>ZIP_RADIUS_MILES = 25, HIGH_SCORE_THRESHOLD = 80,
              MAX_DAILY_LEADS_PER_LOCATION = 50, FALLBACK_ENABLED = True\<rparr>"

text \<open>
  What a call reads from outside: the answer of the zip-code service for each zip code
  (\<open>None\<close> when \<^verbatim>\<open>getZipCoordinates\<close> returns \<^verbatim>\<open>null\<close>), the hour that
  \<^verbatim>\<open>new Date().getHours()\<close> returns, whether a JSONBin key is configured, and the record
  the capacity store returns for a location identifier (\<open>None\<close> when the request fails or
  the record is empty).
\<close>

record env =
  geo :: "string \<Rightarrow> coords option"
  wallClockHour :: nat
  jsonbinKey :: bool
  store :: "string \<Rightarrow> capacity option"

text \<open>Truthiness of an optional string property: present and not empty.\<close>

fun truthy :: "string option \<Rightarrow> bool" where
  "truthy None = False"
| "truthy (Some s) = (s \<noteq> [])"

section \<open>Distance\<close>

text \<open>\<^verbatim>\<open>Math.atan2(y, x)\<close> on the reals.\<close>

definition atan2 :: "real \<Rightarrow> real \<Rightarrow> real" where
  "atan2 y x =
     (if 0 < x then arctan (y / x)
      else if x < 0 then (if 0 \<le> y then arctan (y / x) + pi else arctan (y / x) - pi)
      else if 0 < y then pi / 2
      else if y < 0 then - (pi / 2)
      else 0)"

definition calculateHaversineDistance :: "coords \<Rightarrow> coords \<Rightarrow> real" where
  "calculateHaversineDistance coords1 coords2 =
     (let R = 3959;
          dLat = (lat coords2 - lat coords1) * pi / 180;
          dLng = (lng coords2 - lng coords1) * pi / 180;
          a = sin (dLat / 2) * sin (dLat / 2) +
              cos (lat coords1 * pi / 180) * cos (lat coords2 * pi / 180) *
              sin (dLng / 2) * sin (dLng / 2)
      in R * 2 * atan2 (sqrt a) (sqrt (1 - a)))"

definition calculateDistanceReal :: "(string \<Rightarrow> coords option) \<Rightarrow> string \<Rightarrow> string \<Rightarrow> real" where
  "calculateDistanceReal g zip1 zip2 =
     (case (g zip1, g zip2) of
        (Some coords1, Some coords2) \<Rightarrow> calculateHaversineDistance coords1 coords2
      | _ \<Rightarrow> 999)"

text \<open>
  \<^verbatim>\<open>Array.prototype.sort\<close> with the comparator \<^verbatim>\<open>a.distance - b.distance\<close> is a stable
  sort on the distance; \<^const>\<open>sort_key\<close> is the stable insertion sort.
  \<^verbatim>\<open>calculateDistanceReal\<close> catches every error itself, so the two \<^verbatim>\<open>catch\<close> branches
  of \<^verbatim>\<open>getNearestLocations\<close> (the table of \<^verbatim>\<open>calculateDistance\<close>, and every location
  at distance 999) are never taken and have no counterpart here.
\<close>

definition withDistance :: "env \<Rightarrow> string \<Rightarrow> location \<Rightarrow> located" where
  "withDistance e z l = \<lparr>loc = l, distance = calculateDistanceReal (geo e) z (zipCode l)\<rparr>"

definition getNearestLocations :: "config \<Rightarrow> env \<Rightarrow> string \<Rightarrow> location list \<Rightarrow> located list" where
  "getNearestLocations cfg e z locations =
     sort_key distance
       (filter (\<lambda>l. distance l \<le> ZIP_RADIUS_MILES cfg) (map (withDistance e z) locations))"

section \<open>Lead score\<close>

text \<open>
  The multiplier table is an object literal, so \<^verbatim>\<open>sourceMultipliers[lead.source]\<close> finds
  the five keys and also the members every object inherits from \<^verbatim>\<open>Object.prototype\<close>.
  An inherited member is a function or an object: it is truthy, \<^verbatim>\<open>|| 1.0\<close> keeps it, and
  the product with it is \<^verbatim>\<open>NaN\<close> (\<open>None\<close> below). Every other source, and an absent one,
  gets the default 1.
\<close>

definition inheritedProperty :: "string \<Rightarrow> bool" where
  "inheritedProperty k =
     (k \<in> set [''constructor'', ''toString'', ''toLocaleString'', ''valueOf'',
                ''hasOwnProperty'', ''isPrototypeOf'', ''propertyIsEnumerable'', ''__proto__'',
                ''__defineGetter__'', ''__defineSetter__'', ''__lookupGetter__'',
                ''__lookupSetter__''])"

definition sourceMultipliers :: "string option \<Rightarrow> real option" where
  "sourceMultipliers s =
     (if s = Some ''facebook'' then Some (12 / 10)
      else if s = Some ''google'' then Some (11 / 10)
      else if s = Some ''website'' then Some 1
      else if s = Some ''referral'' then Some (13 / 10)
      else if s = Some ''walk-in'' then Some (9 / 10)
      else (case s of
              None \<Rightarrow> Some 1
            | Some k \<Rightarrow> if inheritedProperty k then None else Some 1))"

text \<open>\<^verbatim>\<open>x || d\<close> on an optional number: \<open>d\<close> when \<open>x\<close> is absent or zero.\<close>

fun orElse :: "nat option \<Rightarrow> nat \<Rightarrow> nat" where
  "orElse None d = d"
| "orElse (Some x) d = (if x = 0 then d else x)"

text \<open>
  The body shared by both scorers; they differ in the default of the raw score only
  (\<^verbatim>\<open>lead.leadScore || 0\<close> in the code action, \<^verbatim>\<open>lead.leadScore || 50\<close> in the class).
  The second argument is the hour read from the wall clock inside the function. Once the
  score is \<^verbatim>\<open>NaN\<close> it stays \<^verbatim>\<open>NaN\<close> through the additions, \<^verbatim>\<open>Math.round\<close> and
  \<^verbatim>\<open>Math.min\<close>.
\<close>

definition scoreFrom :: "nat \<Rightarrow> nat \<Rightarrow> lead \<Rightarrow> score" where
  "scoreFrom score0 hour l =
     (case sourceMultipliers (source l) of
        None \<Rightarrow> NaN
      | Some m \<Rightarrow>
          (let score1 = real score0 * m;
               score2 = (if truthy (phone l) \<and> truthy (email l) \<and> truthy (firstName l)
                         then score1 + 10 else score1);
               score3 = (if 9 \<le> hour \<and> hour \<le> 17 then score2 + 5 else score2)
           in Score (min 100 (round score3))))"

definition calculateLeadScore :: "nat \<Rightarrow> lead \<Rightarrow> score" where
  "calculateLeadScore hour l = scoreFrom (orElse (leadScore l) 0) hour l"

definition calculateLeadScore_prod :: "nat \<Rightarrow> lead \<Rightarrow> score" where
  "calculateLeadScore_prod hour l = scoreFrom (orElse (leadScore l) 50) hour l"

text \<open>\<^verbatim>\<open>score >= threshold\<close>: false when the score is \<^verbatim>\<open>NaN\<close>.\<close>

fun scoreAtLeast :: "score \<Rightarrow> int \<Rightarrow> bool" where
  "scoreAtLeast (Score s) t = (t \<le> s)"
| "scoreAtLeast NaN t = False"

section \<open>Capacity\<close>

definition checkLocationCapacity :: "config \<Rightarrow> env \<Rightarrow> location \<Rightarrow> capacity" where
  "checkLocationCapacity cfg e l =
     (let simulated =
            (let currentLeads = (case dailyLeadCount l of None \<Rightarrow> 0 | Some n \<Rightarrow> n)
             in \<lparr>hasCapacity = currentLeads < MAX_DAILY_LEADS_PER_LOCATION cfg,
                 availableSlots = MAX_DAILY_LEADS_PER_LOCATION cfg - currentLeads,
                 isOperational = (status l = ''active'')\<rparr>)
      in if jsonbinKey e
         then (case store e (locId l) of Some capacityData \<Rightarrow> capacityData | None \<Rightarrow> simulated)
         else simulated)"

definition withCapacity :: "config \<Rightarrow> env \<Rightarrow> located \<Rightarrow> candidate" where
  "withCapacity cfg e l =
     \<lparr>loc = loc l, distance = distance l, capacity = checkLocationCapacity cfg e (loc l)\<rparr>"

section \<open>The routing function of the code action\<close>

datatype error_code =
  INVALID_ZIP | NO_LOCATIONS | OUT_OF_RANGE | NO_CAPACITY | SYSTEM_ERROR | INVALID_LEAD

text \<open>
  The three shapes of the returned object: an error with its code; the fallback location
  with \<^verbatim>\<open>waitlist: true\<close> and \<^verbatim>\<open>isHighPriority\<close>; the selected location with
  \<^verbatim>\<open>reason\<close> and \<^verbatim>\<open>isHighPriority\<close> (\<^verbatim>\<open>estimatedDistance\<close> is the distance of the
  location).
\<close>

datatype routing =
  Failure error_code
| Waitlist candidate bool
| Routed candidate string bool

text \<open>
  A call returns its result, leaves the caller's lead object in a new state, and has sent
  requests to the zip-code service (two for each location, in the order of the list) and
  to the capacity store (one for each location in range when a key is configured).
  Deliveries to the analytics sinks are not modelled. An absent lead is \<open>None\<close>; an absent
  location list takes the branch of the empty list. No modelled step throws, so the
  \<^verbatim>\<open>catch\<close> branch that returns \<^verbatim>\<open>SYSTEM_ERROR\<close> is never taken.
  Neither \<^verbatim>\<open>routeLead\<close> writes capacity: \<^verbatim>\<open>updateLocationCapacity\<close> is defined and never
  called, the class has no such method, and no location object is mutated. A call
  therefore leaves the environment that the next call reads as it found it.
\<close>

record outcome =
  result :: routing
  leadAfter :: "lead option"
  geoLookups :: "string list"
  capacityFetches :: "string list"

definition selectByScore :: "config \<Rightarrow> score \<Rightarrow> candidate \<Rightarrow> candidate list \<Rightarrow> routing" where
  "selectByScore cfg score first others =
     (if scoreAtLeast score (HIGH_SCORE_THRESHOLD cfg)
      then Routed first ''High-value lead routed to closest available location'' True
      else (case find (\<lambda>c. priority (loc c) = ''low-traffic'') (first # others) of
              Some lowTrafficLocation \<Rightarrow>
                Routed lowTrafficLocation ''Standard lead routed to low-traffic location'' False
            | None \<Rightarrow>
                Routed first ''Standard lead routed to closest available location'' False))"

definition fallbackLocation :: "candidate list \<Rightarrow> candidate option" where
  "fallbackLocation locationsWithCapacity =
     (case sort_key (\<lambda>c. - availableSlots (capacity c))
             (filter (\<lambda>c. isOperational (capacity c)) locationsWithCapacity) of
        [] \<Rightarrow> None
      | c # _ \<Rightarrow> Some c)"

definition routeLead :: "config \<Rightarrow> env \<Rightarrow> lead option \<Rightarrow> location list \<Rightarrow> outcome" where
  "routeLead cfg e leadArg locations =
    (case leadArg of
       None \<Rightarrow> \<lparr>result = Failure INVALID_ZIP, leadAfter = None,
                 geoLookups = [], capacityFetches = []\<rparr>
     | Some l \<Rightarrow>
        (case leadZip l of
           None \<Rightarrow> \<lparr>result = Failure INVALID_ZIP, leadAfter = Some l,
                     geoLookups = [], capacityFetches = []\<rparr>
         | Some z \<Rightarrow>
            if z = [] then
              \<lparr>result = Failure INVALID_ZIP, leadAfter = Some l,
               geoLookups = [], capacityFetches = []\<rparr>
            else if locations = [] then
              \<lparr>result = Failure NO_LOCATIONS, leadAfter = Some l,
               geoLookups = [], capacityFetches = []\<rparr>
            else
              (let score = calculateLeadScore (wallClockHour e) l;
                   l' = l\<lparr>finalScore := Some score\<rparr>;
                   nearestLocations = getNearestLocations cfg e z locations;
                   lookups = concat (map (\<lambda>x. [z, zipCode x]) locations)
               in if nearestLocations = [] then
                    \<lparr>result = Failure OUT_OF_RANGE, leadAfter = Some l',
                     geoLookups = lookups, capacityFetches = []\<rparr>
                  else
                    (let locationsWithCapacity = map (withCapacity cfg e) nearestLocations;
                         fetches = (if jsonbinKey e
                                    then map (\<lambda>x. locId (loc x)) nearestLocations else []);
                         availableLocations =
                           filter (\<lambda>c. hasCapacity (capacity c) \<and> isOperational (capacity c))
                             locationsWithCapacity;
                         r = (case availableLocations of
                                [] \<Rightarrow>
                                  (case (if FALLBACK_ENABLED cfg
                                         then fallbackLocation locationsWithCapacity
                                         else None) of
                                     Some fb \<Rightarrow>
                                       Waitlist fb
                                         (scoreAtLeast score (HIGH_SCORE_THRESHOLD cfg))
                                   | None \<Rightarrow> Failure NO_CAPACITY)
                              | first # others \<Rightarrow> selectByScore cfg score first others)
                     in \<lparr>result = r, leadAfter = Some l',
                         geoLookups = lookups, capacityFetches = fetches\<rparr>))))"

section \<open>The class ProductionLeadRouter\<close>

text \<open>
  The methods \<^verbatim>\<open>haversineDistance\<close> and \<^verbatim>\<open>calculateRealDistance\<close> of the class have
  the bodies of \<^verbatim>\<open>calculateHaversineDistance\<close> and \<^verbatim>\<open>calculateDistanceReal\<close>, which
  embed them. The class reads a capacity record from the store (taken to be well-formed)
  or, without a key or an answer, draws one at random: \<open>draws i\<close> is the pair of values
  that \<^verbatim>\<open>Math.random()\<close> returns inside \<^verbatim>\<open>getSimulatedCapacity\<close> for the candidate
  at position \<open>i\<close>, in whatever order the calls complete. The state of the router
  that a call reads and writes is its map of cached distances; the expiry of an entry by
  timer and the counters of \<^verbatim>\<open>metrics\<close> are not modelled.
\<close>

definition isDigit :: "char \<Rightarrow> bool" where
  "isDigit c = (c \<in> set ''0123456789'')"

text \<open>\<^verbatim>\<open>lead && lead.id && lead.zip && /^\d{5}$/.test(lead.zip)\<close>\<close>

definition validateLead :: "lead option \<Rightarrow> bool" where
  "validateLead leadArg =
     (case leadArg of
        None \<Rightarrow> False
      | Some l \<Rightarrow> truthy (leadId l) \<and>
          (case leadZip l of
             None \<Rightarrow> False
           | Some z \<Rightarrow> z \<noteq> [] \<and> length z = 5 \<and> list_all isDigit z))"

definition cacheKey :: "string \<Rightarrow> string \<Rightarrow> string" where
  "cacheKey z zc = ''distance_'' @ z @ ''_'' @ zc"

definition withDistance_prod ::
    "env \<Rightarrow> (string \<Rightarrow> real option) \<Rightarrow> string \<Rightarrow> location \<Rightarrow> located" where
  "withDistance_prod e cache z l =
     (case cache (cacheKey z (zipCode l)) of
        Some d \<Rightarrow> \<lparr>loc = l, distance = d\<rparr>
      | None \<Rightarrow> \<lparr>loc = l, distance = calculateDistanceReal (geo e) z (zipCode l)\<rparr>)"

fun cacheMisses ::
    "env \<Rightarrow> (string \<Rightarrow> real option) \<Rightarrow> string \<Rightarrow> location list \<Rightarrow> (string \<times> real) list" where
  "cacheMisses e cache z [] = []"
| "cacheMisses e cache z (l # ls) =
     (case cache (cacheKey z (zipCode l)) of
        Some d \<Rightarrow> cacheMisses e cache z ls
      | None \<Rightarrow> (cacheKey z (zipCode l), calculateDistanceReal (geo e) z (zipCode l))
                 # cacheMisses e cache z ls)"

definition getNearestLocationsReal ::
    "config \<Rightarrow> env \<Rightarrow> (string \<Rightarrow> real option) \<Rightarrow> string \<Rightarrow> location list
     \<Rightarrow> located list \<times> (string \<Rightarrow> real option)" where
  "getNearestLocationsReal cfg e cache z locations =
     (sort_key distance
        (filter (\<lambda>l. distance l \<le> ZIP_RADIUS_MILES cfg)
           (map (withDistance_prod e cache z) locations)),
      fold (\<lambda>(k, d) m. m(k \<mapsto> d)) (cacheMisses e cache z locations) cache)"

definition getSimulatedCapacity :: "real \<Rightarrow> real \<Rightarrow> capacity" where
  "getSimulatedCapacity r1 r2 =
     \<lparr>hasCapacity = (3 / 10 < r1), availableSlots = \<lfloor>r2 * 20\<rfloor> + 5, isOperational = True\<rparr>"

definition getLocationCapacityReal ::
    "env \<Rightarrow> (nat \<Rightarrow> real \<times> real) \<Rightarrow> nat \<Rightarrow> string \<Rightarrow> capacity" where
  "getLocationCapacityReal e draws i locationId =
     (let simulated = getSimulatedCapacity (fst (draws i)) (snd (draws i))
      in if \<not> jsonbinKey e then simulated
         else (case store e locationId of Some record \<Rightarrow> record | None \<Rightarrow> simulated))"

definition checkLocationCapacities ::
    "env \<Rightarrow> (nat \<Rightarrow> real \<times> real) \<Rightarrow> located list \<Rightarrow> candidate list" where
  "checkLocationCapacities e draws locations =
     map (\<lambda>(i, l). \<lparr>loc = loc l, distance = distance l,
                     capacity = getLocationCapacityReal e draws i (locId (loc l))\<rparr>)
       (enumerate 0 locations)"

definition selectOptimalLocation :: "config \<Rightarrow> lead \<Rightarrow> candidate list \<Rightarrow> candidate option" where
  "selectOptimalLocation cfg l locations =
     (case filter (\<lambda>c. hasCapacity (capacity c) \<and> status (loc c) = ''active'') locations of
        [] \<Rightarrow> None
      | first # others \<Rightarrow>
          if (case finalScore l of None \<Rightarrow> False
              | Some s \<Rightarrow> scoreAtLeast s (HIGH_SCORE_THRESHOLD cfg))
          then Some first
          else (case find (\<lambda>c. priority (loc c) = ''low-traffic'') (first # others) of
                  Some c \<Rightarrow> Some c
                | None \<Rightarrow> Some first))"

definition getRoutingReason :: "config \<Rightarrow> lead \<Rightarrow> candidate \<Rightarrow> string" where
  "getRoutingReason cfg l location =
     (let isHighValue = (case finalScore l of None \<Rightarrow> False
                         | Some s \<Rightarrow> scoreAtLeast s (HIGH_SCORE_THRESHOLD cfg));
          isLowTraffic = (priority (loc location) = ''low-traffic'')
      in if isHighValue then ''High-value lead routed to optimal location''
         else if isLowTraffic then ''Standard lead routed to low-traffic location''
         else ''Lead routed to nearest available location'')"

record outcome_prod = outcome +
  cacheAfter :: "string \<Rightarrow> real option"

definition routeLead_prod ::
    "config \<Rightarrow> env \<Rightarrow> (nat \<Rightarrow> real \<times> real) \<Rightarrow> (string \<Rightarrow> real option) \<Rightarrow> lead option
     \<Rightarrow> location list \<Rightarrow> outcome_prod" where
  "routeLead_prod cfg e draws cache leadArg locations =
    (if \<not> validateLead leadArg then
       \<lparr>result = Failure INVALID_LEAD, leadAfter = leadArg,
        geoLookups = [], capacityFetches = [], cacheAfter = cache\<rparr>
     else
       (case leadArg of
          None \<Rightarrow> \<lparr>result = Failure INVALID_LEAD, leadAfter = None,
                    geoLookups = [], capacityFetches = [], cacheAfter = cache\<rparr>
        | Some l \<Rightarrow>
           (case leadZip l of
              None \<Rightarrow> \<lparr>result = Failure INVALID_LEAD, leadAfter = Some l,
                        geoLookups = [], capacityFetches = [], cacheAfter = cache\<rparr>
            | Some z \<Rightarrow>
               (let l' = l\<lparr>finalScore := Some (calculateLeadScore_prod (wallClockHour e) l)\<rparr>;
                    (nearestLocations, cache') = getNearestLocationsReal cfg e cache z locations;
                    lookups = concat (map (\<lambda>x. if cache (cacheKey z (zipCode x)) = None
                                                 then [z, zipCode x] else []) locations)
                in if nearestLocations = [] then
                     \<lparr>result = Failure OUT_OF_RANGE, leadAfter = Some l',
                      geoLookups = lookups, capacityFetches = [], cacheAfter = cache'\<rparr>
                   else
                     (let locationsWithCapacity =
                            checkLocationCapacities e draws nearestLocations;
                          fetches = (if jsonbinKey e
                                     then map (\<lambda>x. locId (loc x)) nearestLocations else [])
                      in (case selectOptimalLocation cfg l' locationsWithCapacity of
                            None \<Rightarrow>
                              \<lparr>result = Failure NO_CAPACITY, leadAfter = Some l',
                               geoLookups = lookups, capacityFetches = fetches,
                               cacheAfter = cache'\<rparr>
                          | Some selectedLocation \<Rightarrow>
                              \<lparr>result = Routed selectedLocation
                                   (getRoutingReason cfg l' selectedLocation)
                                   (scoreAtLeast
                                      (calculateLeadScore_prod (wallClockHour e) l)
                                      (HIGH_SCORE_THRESHOLD cfg)),
                               leadAfter = Some l', geoLookups = lookups,
                               capacityFetches = fetches, cacheAfter = cache'\<rparr>))))))"

section \<open>Sequences of calls\<close>

text \<open>
  The results of route calls made one after another against the same location list. The
  calls of the code action share no state that any of them writes; the calls of the class
  share the router's map of cached distances, and each call has its own random draws.
\<close>

definition routeAll :: "config \<Rightarrow> env \<Rightarrow> lead list \<Rightarrow> location list \<Rightarrow> routing list" where
  "routeAll cfg e leads locations = map (\<lambda>l. result (routeLead cfg e (Some l) locations)) leads"

fun routeAll_prod ::
    "config \<Rightarrow> env \<Rightarrow> (string \<Rightarrow> real option) \<Rightarrow> ((nat \<Rightarrow> real \<times> real) \<times> lead) list
     \<Rightarrow> location list \<Rightarrow> routing list" where
  "routeAll_prod cfg e cache [] locations = []"
| "routeAll_prod cfg e cache ((draws, l) # calls) locations =
     (let out = routeLead_prod cfg e draws cache (Some l) locations
      in result out # routeAll_prod cfg e (cacheAfter out) calls locations)"

text \<open>\<open>routedTo x r\<close>: the result \<open>r\<close> is a successful routing to the location \<open>x\<close>.\<close>

fun routedTo :: "location \<Rightarrow> routing \<Rightarrow> bool" where
  "routedTo x (Routed c reason high) = (loc c = x)"
| "routedTo x (Waitlist c high) = False"
| "routedTo x (Failure code) = False"

section \<open>Notions used to state the properties\<close>

text \<open>
  A location is in range of a lead's zip code when its computed distance is at most the
  service radius; it is available when its capacity reading says that it has capacity and
  is operational.
\<close>

definition inRange :: "config \<Rightarrow> env \<Rightarrow> string \<Rightarrow> location \<Rightarrow> bool" where
  "inRange cfg e z x = (calculateDistanceReal (geo e) z (zipCode x) \<le> ZIP_RADIUS_MILES cfg)"

definition isAvailable :: "config \<Rightarrow> env \<Rightarrow> location \<Rightarrow> bool" where
  "isAvailable cfg e x =
     (hasCapacity (checkLocationCapacity cfg e x) \<and> isOperational (checkLocationCapacity cfg e x))"

definition isOperationalAt :: "config \<Rightarrow> env \<Rightarrow> location \<Rightarrow> bool" where
  "isOperationalAt cfg e x = isOperational (checkLocationCapacity cfg e x)"

definition slotsAt :: "config \<Rightarrow> env \<Rightarrow> location \<Rightarrow> int" where
  "slotsAt cfg e x = availableSlots (checkLocationCapacity cfg e x)"

text \<open>A location with its computed distance and its capacity reading.\<close>

definition candidateOf :: "config \<Rightarrow> env \<Rightarrow> string \<Rightarrow> location \<Rightarrow> candidate" where
  "candidateOf cfg e z x =
     \<lparr>loc = x, distance = calculateDistanceReal (geo e) z (zipCode x),
      capacity = checkLocationCapacity cfg e x\<rparr>"

text \<open>
  The selection policy over a set of available candidates: a high-score lead gets a
  candidate of least distance; any other lead gets a candidate tagged \<^verbatim>\<open>low-traffic\<close> if
  there is one (of least distance among those), and a candidate of least distance if
  there is none.
\<close>

definition followsPolicy :: "bool \<Rightarrow> candidate set \<Rightarrow> candidate \<Rightarrow> bool" where
  "followsPolicy high avail sel =
     (sel \<in> avail \<and>
      (if high \<or> \<not> (\<exists>c\<in>avail. priority (loc c) = ''low-traffic'')
       then \<forall>c\<in>avail. distance sel \<le> distance c
       else priority (loc sel) = ''low-traffic'' \<and>
            (\<forall>c\<in>avail. priority (loc c) = ''low-traffic'' \<longrightarrow> distance sel \<le> distance c)))"

text \<open>
  The class tests the capacity reading for capacity and the location itself for the status
  \<^verbatim>\<open>active\<close>.
\<close>

definition isAvailable_prod :: "candidate \<Rightarrow> bool" where
  "isAvailable_prod c = (hasCapacity (capacity c) \<and> status (loc c) = ''active'')"

text \<open>The list that \<^verbatim>\<open>routeLead\<close> of the class passes to \<^verbatim>\<open>selectOptimalLocation\<close>.\<close>

definition candidates_prod ::
    "config \<Rightarrow> env \<Rightarrow> (nat \<Rightarrow> real \<times> real) \<Rightarrow> (string \<Rightarrow> real option) \<Rightarrow> string \<Rightarrow> location list
     \<Rightarrow> candidate list" where
  "candidates_prod cfg e draws cache z locations =
     checkLocationCapacities e draws (fst (getNearestLocationsReal cfg e cache z locations))"

text \<open>
  The distance that the router's cache holds for a lead's zip code and a location, if it
  holds one, is within the service radius.
\<close>

definition cachedInRange ::
    "config \<Rightarrow> (string \<Rightarrow> real option) \<Rightarrow> string \<Rightarrow> location \<Rightarrow> bool" where
  "cachedInRange cfg cache z x =
     (case cache (cacheKey z (zipCode x)) of
        None \<Rightarrow> True
      | Some d \<Rightarrow> d \<le> ZIP_RADIUS_MILES cfg)"

text \<open>The lists \<^verbatim>\<open>availableLocations\<close> and the operational candidates inside \<^verbatim>\<open>routeLead\<close>.\<close>

definition availableOf :: "config \<Rightarrow> env \<Rightarrow> string \<Rightarrow> location list \<Rightarrow> candidate list" where
  "availableOf cfg e z locations =
     filter (\<lambda>c. hasCapacity (capacity c) \<and> isOperational (capacity c))
       (map (withCapacity cfg e) (getNearestLocations cfg e z locations))"

definition operationalOf :: "config \<Rightarrow> env \<Rightarrow> string \<Rightarrow> location list \<Rightarrow> candidate list" where
  "operationalOf cfg e z locations =
     filter (\<lambda>c. isOperational (capacity c))
       (map (withCapacity cfg e) (getNearestLocations cfg e z locations))"


text \<open>
  The score as the specification words it: the raw signal, 50 when absent, times the source
  multiplier, plus the two bonuses, clamped to \<open>[0, 100]\<close> and rounded.
\<close>

definition score_spec :: "nat \<Rightarrow> lead \<Rightarrow> int" where
  "score_spec hour l =
     round (max 0 (min 100
       (real (case leadScore l of None \<Rightarrow> 50 | Some r \<Rightarrow> r) *
          (case sourceMultipliers (source l) of None \<Rightarrow> 1 | Some m \<Rightarrow> m)
        + (if truthy (phone l) \<and> truthy (email l) \<and> truthy (firstName l) then 10 else 0)
        + (if 9 \<le> hour \<and> hour \<le> 17 then 5 else 0))))"

text \<open>A well-formed postal code: five ASCII digits.\<close>

definition wellFormedZip :: "string option \<Rightarrow> bool" where
  "wellFormedZip z = (case z of None \<Rightarrow> False | Some s \<Rightarrow> length s = 5 \<and> list_all isDigit s)"

section \<open>Sample inputs\<close>

text \<open>
  Leads and locations after the test data of the sources. The zip-code service resolves
  \<^verbatim>\<open>90210\<close> only and it is three o'clock at night. In \<open>envLA\<close> no JSONBin key is
  configured; in \<open>envStore\<close> a key is configured and the store holds a record for
  \<^verbatim>\<open>loc_001\<close> (capacity, not operational) and for \<^verbatim>\<open>loc_002\<close>; in \<open>envOneSlot\<close> the
  store holds a record for \<^verbatim>\<open>loc_001\<close> with one slot left.
\<close>

definition envLA :: env where
  "envLA = \<lparr>geo = (\<lambda>z. if z = ''90210'' then Some \<lparr>lat = 34, lng = -118\<rparr> else None),
            wallClockHour = 3, jsonbinKey = False, store = (\<lambda>_. None)\<rparr>"

definition envStore :: env where
  "envStore = envLA\<lparr>jsonbinKey := True,
     store := (\<lambda>k. if k = ''loc_001''
                    then Some \<lparr>hasCapacity = True, availableSlots = 5, isOperational = False\<rparr>
                    else if k = ''loc_002''
                    then Some \<lparr>hasCapacity = True, availableSlots = 35, isOperational = True\<rparr>
                    else None)\<rparr>"

definition envOneSlot :: env where
  "envOneSlot = envLA\<lparr>jsonbinKey := True,
     store := (\<lambda>k. if k = ''loc_001''
                    then Some \<lparr>hasCapacity = True, availableSlots = 1, isOperational = True\<rparr>
                    else None)\<rparr>"

definition noDraws :: "nat \<Rightarrow> real \<times> real" where
  "noDraws i = (0, 0)"

definition standardLead :: lead where
  "standardLead = \<lparr>leadId = Some ''lead_002'', leadZip = Some ''90210'', leadScore = Some 50,
     source = Some ''website'', phone = Some ''+1234567891'', email = Some ''jane@example.com'',
     firstName = None, finalScore = None\<rparr>"

definition priorityLead :: lead where
  "priorityLead = \<lparr>leadId = Some ''prod_lead_001'', leadZip = Some ''90210'', leadScore = Some 85,
     source = Some ''facebook'', phone = Some ''+1234567890'', email = Some ''test@example.com'',
     firstName = Some ''Production Test'', finalScore = None\<rparr>"

definition unscoredLead :: lead where
  "unscoredLead = standardLead\<lparr>leadScore := None\<rparr>"

definition zeroLead :: lead where
  "zeroLead = standardLead\<lparr>leadScore := Some 0\<rparr>"

definition constructorLead :: lead where
  "constructorLead = standardLead\<lparr>source := Some ''constructor''\<rparr>"

definition farLead :: lead where
  "farLead = standardLead\<lparr>leadZip := Some ''99999''\<rparr>"

definition malformedLead :: lead where
  "malformedLead = standardLead\<lparr>leadZip := Some ''9021O''\<rparr>"

definition hub :: location where
  "hub = \<lparr>locId = ''loc_001'', locName = ''Downtown Fitness Hub'', zipCode = ''90210'',
          priority = ''high-traffic'', status = ''active'', dailyLeadCount = Some 45\<rparr>"

definition wellness :: location where
  "wellness = \<lparr>locId = ''loc_002'', locName = ''Westside Wellness Center'', zipCode = ''90210'',
          priority = ''low-traffic'', status = ''active'', dailyLeadCount = Some 15\<rparr>"

definition manhattan :: location where
  "manhattan = \<lparr>locId = ''loc_005'', locName = ''NYC Manhattan Gym'', zipCode = ''10001'',
          priority = ''high-traffic'', status = ''active'', dailyLeadCount = Some 30\<rparr>"

definition hubFull :: location where
  "hubFull = hub\<lparr>dailyLeadCount := Some 55\<rparr>"

definition wellnessFull :: location where
  "wellnessFull = wellness\<lparr>dailyLeadCount := Some 52\<rparr>"

definition hubClosed :: location where
  "hubClosed = hub\<lparr>status := ''maintenance'', dailyLeadCount := Some 55\<rparr>"

section \<open>Lists sorted by a key\<close>

lemma sorted_hd_least:
  assumes "sorted (map f (x # xs))" and "y \<in> set (x # xs)"
  shows "f x \<le> f y"
  using assms by auto

lemma find_SomeD: "find P xs = Some c \<Longrightarrow> c \<in> set xs \<and> P c"
  by (induction xs) (auto split: if_splits)

lemma find_sorted_least:
  assumes "sorted (map f xs)" and "find P xs = Some c" and "y \<in> set xs" and "P y"
  shows "f c \<le> f y"
  using assms
proof (induction xs)
  case Nil
  then show ?case by simp
next
  case (Cons a xs)
  show ?case
  proof (cases "P a")
    case True
    with Cons.prems have "c = a" by simp
    with Cons.prems(1,3) show ?thesis by auto
  next
    case False
    with Cons.prems have "find P xs = Some c" "y \<in> set xs" by auto
    moreover from Cons.prems(1) have "sorted (map f xs)" by simp
    ultimately show ?thesis using Cons.IH Cons.prems(4) by blast
  qed
qed

text \<open>
  The head of a stable sort by \<open>k\<close> of a list sorted by \<open>f\<close> is least in \<open>k\<close> and, among
  the elements of the same \<open>k\<close>, least in \<open>f\<close>.
\<close>

lemma sort_key_head_stable:
  assumes s: "sort_key k xs = c # rest" and f: "sorted (map f xs)" and y: "y \<in> set xs"
  shows "k c \<le> k y" and "k y = k c \<Longrightarrow> f c \<le> f y"
proof -
  have "sorted (map k (c # rest))" using sorted_sort_key [of k xs] s by simp
  moreover have "y \<in> set (c # rest)" using y set_sort [of k xs] s by simp
  ultimately show "k c \<le> k y" by auto
next
  assume eq: "k y = k c"
  have "filter (\<lambda>v. k v = k c) xs = filter (\<lambda>v. k v = k c) (c # rest)"
    using sort_key_stable [of k "k c" xs] s by simp
  then have fl: "filter (\<lambda>v. k v = k c) xs = c # filter (\<lambda>v. k v = k c) rest" by simp
  have "sorted (map f (filter (\<lambda>v. k v = k c) xs))" using f by (rule sorted_filter)
  then have "sorted (map f (c # filter (\<lambda>v. k v = k c) rest))" using fl by simp
  moreover have "y \<in> set (filter (\<lambda>v. k v = k c) xs)" using y eq by simp
  then have "y \<in> set (c # filter (\<lambda>v. k v = k c) rest)" using fl by simp
  ultimately show "f c \<le> f y" by (rule sorted_hd_least)
qed

section \<open>The candidate lists\<close>

lemma nearest_set:
  "set (getNearestLocations cfg e z locations) =
     withDistance e z ` {x \<in> set locations. inRange cfg e z x}"
  by (auto simp add: getNearestLocations_def inRange_def withDistance_def)

lemma nearest_sorted: "sorted (map distance (getNearestLocations cfg e z locations))"
  by (simp add: getNearestLocations_def)

lemma withCapacity_sorted:
  "sorted (map distance (map (withCapacity cfg e) (getNearestLocations cfg e z locations)))"
proof -
  have "(distance \<circ> withCapacity cfg e) = (distance :: located \<Rightarrow> real)"
    by (rule ext) (simp add: withCapacity_def)
  then have "map distance (map (withCapacity cfg e) (getNearestLocations cfg e z locations)) =
      map distance (getNearestLocations cfg e z locations)"
    by (simp only: map_map)
  then show ?thesis using nearest_sorted by (simp only:)
qed

lemma available_set:
  "set (availableOf cfg e z locations) =
     (\<lambda>x. \<lparr>loc = x, distance = calculateDistanceReal (geo e) z (zipCode x),
            capacity = checkLocationCapacity cfg e x\<rparr>) `
       {x \<in> set locations. inRange cfg e z x \<and> isAvailable cfg e x}"
  unfolding availableOf_def set_filter set_map nearest_set
  by (auto simp add: withCapacity_def withDistance_def isAvailable_def image_iff)

lemma available_sorted: "sorted (map distance (availableOf cfg e z locations))"
  unfolding availableOf_def using withCapacity_sorted by (rule sorted_filter)

lemma operational_set:
  "set (operationalOf cfg e z locations) =
     (\<lambda>x. \<lparr>loc = x, distance = calculateDistanceReal (geo e) z (zipCode x),
            capacity = checkLocationCapacity cfg e x\<rparr>) `
       {x \<in> set locations. inRange cfg e z x \<and> isOperationalAt cfg e x}"
  unfolding operationalOf_def set_filter set_map nearest_set
  by (auto simp add: withCapacity_def withDistance_def isOperationalAt_def image_iff)

lemma operational_sorted: "sorted (map distance (operationalOf cfg e z locations))"
  unfolding operationalOf_def using withCapacity_sorted by (rule sorted_filter)

lemma routeLead_available:
  assumes "leadZip l = Some z" and "z \<noteq> []" and "availableOf cfg e z locations = first # others"
  shows "result (routeLead cfg e (Some l) locations) =
           selectByScore cfg (calculateLeadScore (wallClockHour e) l) first others"
proof -
  from assms(3) have ne: "getNearestLocations cfg e z locations \<noteq> []"
    by (auto simp add: availableOf_def)
  then have "locations \<noteq> []"
    by (auto simp add: getNearestLocations_def)
  with assms ne show ?thesis
    by (simp add: routeLead_def Let_def availableOf_def)
qed

lemma routeLead_fallback:
  assumes "leadZip l = Some z" and "z \<noteq> []" and "FALLBACK_ENABLED cfg"
    and "availableOf cfg e z locations = []"
    and "sort_key (\<lambda>c. - availableSlots (capacity c)) (operationalOf cfg e z locations) = fb # rest"
  shows "result (routeLead cfg e (Some l) locations) =
           Waitlist fb (scoreAtLeast (calculateLeadScore (wallClockHour e) l) (HIGH_SCORE_THRESHOLD cfg))"
proof -
  from assms(5) have "operationalOf cfg e z locations \<noteq> []" by auto
  then have ne: "getNearestLocations cfg e z locations \<noteq> []"
    by (auto simp add: operationalOf_def)
  then have "locations \<noteq> []"
    by (auto simp add: getNearestLocations_def)
  with assms ne show ?thesis
    by (simp add: routeLead_def Let_def availableOf_def operationalOf_def fallbackLocation_def)
qed

section \<open>Evaluation on the sample inputs\<close>

lemma CONFIG_fields:
  "ZIP_RADIUS_MILES CONFIG = 25" "HIGH_SCORE_THRESHOLD CONFIG = 80"
  "MAX_DAILY_LEADS_PER_LOCATION CONFIG = 50" "FALLBACK_ENABLED CONFIG"
  by (simp_all add: CONFIG_def)

lemma envLA_fields: "wallClockHour envLA = 3" "jsonbinKey envLA = False"
  by (simp_all add: envLA_def)

lemma lead_zips:
  "leadZip standardLead = Some ''90210''" "leadZip farLead = Some ''99999''"
  "leadZip malformedLead = Some ''9021O''"
  by (simp_all add: standardLead_def farLead_def malformedLead_def)

lemma zips:
  "zipCode hub = ''90210''" "zipCode wellness = ''90210''" "zipCode hubFull = ''90210''"
  "zipCode wellnessFull = ''90210''" "zipCode hubClosed = ''90210''"
  "zipCode manhattan = ''10001''"
  by (simp_all add: hub_def wellness_def hubFull_def wellnessFull_def hubClosed_def
      manhattan_def)

lemma haversine_same: "calculateHaversineDistance c c = 0"
  by (simp add: calculateHaversineDistance_def atan2_def)

lemma dist_LA: "calculateDistanceReal (geo envLA) ''90210'' ''90210'' = 0"
  by (simp add: calculateDistanceReal_def envLA_def haversine_same)

lemma dist_NY: "calculateDistanceReal (geo envLA) ''90210'' ''10001'' = 999"
  by (simp add: calculateDistanceReal_def envLA_def)

lemma score_standard: "calculateLeadScore 3 standardLead = Score 50"
  by (simp add: calculateLeadScore_def scoreFrom_def standardLead_def sourceMultipliers_def)

lemma score_priority:
  "calculateLeadScore 3 priorityLead = Score 100" "calculateLeadScore_prod 3 priorityLead = Score 100"
  by (simp_all add: calculateLeadScore_def calculateLeadScore_prod_def scoreFrom_def
      priorityLead_def sourceMultipliers_def)

lemma score_standard_prod: "calculateLeadScore_prod 3 standardLead = Score 50"
  by (simp add: calculateLeadScore_prod_def scoreFrom_def standardLead_def sourceMultipliers_def)


lemma cap_hubFull:
  "checkLocationCapacity CONFIG envLA hubFull =
     \<lparr>hasCapacity = False, availableSlots = - 5, isOperational = True\<rparr>"
  by (simp add: checkLocationCapacity_def CONFIG_def envLA_def hub_def hubFull_def)

lemma cap_wellnessFull:
  "checkLocationCapacity CONFIG envLA wellnessFull =
     \<lparr>hasCapacity = False, availableSlots = - 2, isOperational = True\<rparr>"
  by (simp add: checkLocationCapacity_def CONFIG_def envLA_def wellness_def wellnessFull_def)

lemma cap_hubClosed:
  "checkLocationCapacity CONFIG envLA hubClosed =
     \<lparr>hasCapacity = False, availableSlots = - 5, isOperational = False\<rparr>"
  by (simp add: checkLocationCapacity_def CONFIG_def envLA_def hub_def hubClosed_def)

lemma routeLead_hubClosed:
  "routeLead CONFIG envLA (Some standardLead) [hubClosed] =
     \<lparr>result = Failure NO_CAPACITY, leadAfter = Some (standardLead\<lparr>finalScore := Some (Score 50)\<rparr>),
      geoLookups = [''90210'', ''90210''], capacityFetches = []\<rparr>"
proof -
  have "getNearestLocations CONFIG envLA ''90210'' [hubClosed] =
      [\<lparr>loc = hubClosed, distance = 0\<rparr>]"
    by (simp add: getNearestLocations_def withDistance_def zips dist_LA CONFIG_fields)
  then show ?thesis
    by (simp add: routeLead_def lead_zips Let_def withCapacity_def cap_hubClosed
        fallbackLocation_def envLA_fields score_standard zips)
qed

section \<open>Selection policy\<close>

text \<open>The choice made from a non-empty list of available candidates sorted by distance.\<close>

lemma policy_first:
  assumes "sorted (map distance (first # others))"
    and "high \<or> find (\<lambda>c. priority (loc c) = ''low-traffic'') (first # others) = None"
  shows "followsPolicy high (set (first # others)) first"
proof -
  have least: "\<forall>c\<in>set (first # others). distance first \<le> distance c"
    using sorted_hd_least [OF assms(1)] by blast
  show ?thesis
  proof (cases high)
    case True
    with least show ?thesis by (simp add: followsPolicy_def)
  next
    case False
    with assms(2) have "find (\<lambda>c. priority (loc c) = ''low-traffic'') (first # others) = None"
      by simp
    then have "\<not> (\<exists>c\<in>set (first # others). priority (loc c) = ''low-traffic'')"
      unfolding find_None_iff by blast
    with least show ?thesis unfolding followsPolicy_def by auto
  qed
qed

lemma policy_low_traffic:
  assumes srt: "sorted (map distance (first # others))"
    and nh: "\<not> high"
    and f: "find (\<lambda>c. priority (loc c) = ''low-traffic'') (first # others) = Some c"
  shows "followsPolicy high (set (first # others)) c"
proof -
  let ?low = "\<lambda>c::candidate. priority (loc c) = ''low-traffic''"
  have cm: "c \<in> set (first # others)" and cl: "?low c"
    using find_SomeD [OF f] by blast+
  have "\<forall>y\<in>set (first # others). ?low y \<longrightarrow> distance c \<le> distance y"
    using find_sorted_least [OF srt f] by blast
  moreover have "\<exists>y\<in>set (first # others). ?low y" using cm cl by blast
  ultimately show ?thesis using cm cl nh unfolding followsPolicy_def by auto
qed

text \<open>
  The code action: with an available location in range, \<^verbatim>\<open>routeLead\<close> routes the lead
  by the policy over the available locations in range.
\<close>

lemma routeLead_policy:
  assumes zip: "leadZip l = Some z" "z \<noteq> []"
    and ex: "\<exists>x\<in>set locations. inRange cfg e z x \<and> isAvailable cfg e x"
  shows "\<exists>sel reason.
           result (routeLead cfg e (Some l) locations) =
             Routed sel reason
               (scoreAtLeast (calculateLeadScore (wallClockHour e) l) (HIGH_SCORE_THRESHOLD cfg)) \<and>
           followsPolicy
             (scoreAtLeast (calculateLeadScore (wallClockHour e) l) (HIGH_SCORE_THRESHOLD cfg))
             (candidateOf cfg e z ` {x \<in> set locations. inRange cfg e z x \<and> isAvailable cfg e x})
             sel"
proof -
  let ?av = "availableOf cfg e z locations"
  let ?high = "scoreAtLeast (calculateLeadScore (wallClockHour e) l) (HIGH_SCORE_THRESHOLD cfg)"
  let ?low = "\<lambda>c::candidate. priority (loc c) = ''low-traffic''"
  have set_av: "set ?av =
      candidateOf cfg e z ` {x \<in> set locations. inRange cfg e z x \<and> isAvailable cfg e x}"
    unfolding available_set candidateOf_def by (rule refl)
  from ex have "set ?av \<noteq> {}" unfolding available_set by blast
  then obtain first others where av: "?av = first # others"
    by (cases ?av) auto
  have res: "result (routeLead cfg e (Some l) locations) =
      selectByScore cfg (calculateLeadScore (wallClockHour e) l) first others"
    using routeLead_available [OF zip av] .
  have srt: "sorted (map distance (first # others))"
    using available_sorted [of cfg e z locations] av by simp
  show ?thesis
  proof (cases "?high \<or> find ?low (first # others) = None")
    case True
    then have "\<exists>reason. result (routeLead cfg e (Some l) locations) = Routed first reason ?high"
      unfolding res selectByScore_def by auto
    moreover have "followsPolicy ?high (set ?av) first"
      unfolding av using policy_first [OF srt True] .
    ultimately show ?thesis unfolding set_av by blast
  next
    case False
    then have nh: "\<not> ?high" by blast
    from False obtain c where f: "find ?low (first # others) = Some c" by auto
    have "result (routeLead cfg e (Some l) locations) =
        Routed c ''Standard lead routed to low-traffic location'' ?high"
      unfolding res selectByScore_def using nh f by simp
    moreover have "followsPolicy ?high (set ?av) c"
      unfolding av using policy_low_traffic [OF srt nh f] .
    ultimately show ?thesis unfolding set_av by blast
  qed
qed

text \<open>
  The method \<^verbatim>\<open>selectOptimalLocation\<close> of the class, on a candidate list sorted by
  distance that holds a candidate with capacity and status \<^verbatim>\<open>active\<close>.
\<close>

lemma selectOptimalLocation_policy:
  assumes srt: "sorted (map distance locations)"
    and ex: "\<exists>c\<in>set locations. isAvailable_prod c"
  shows "\<exists>sel. selectOptimalLocation cfg l locations = Some sel \<and>
           followsPolicy
             (case finalScore l of None \<Rightarrow> False
              | Some s \<Rightarrow> scoreAtLeast s (HIGH_SCORE_THRESHOLD cfg))
             {c \<in> set locations. isAvailable_prod c} sel"
proof -
  let ?ok = "\<lambda>c::candidate. hasCapacity (capacity c) \<and> status (loc c) = ''active''"
  let ?low = "\<lambda>c::candidate. priority (loc c) = ''low-traffic''"
  let ?high = "case finalScore l of None \<Rightarrow> False
               | Some s \<Rightarrow> scoreAtLeast s (HIGH_SCORE_THRESHOLD cfg)"
  let ?av = "filter ?ok locations"
  have set_av: "set ?av = {c \<in> set locations. isAvailable_prod c}"
    by (auto simp add: isAvailable_prod_def)
  from ex have "set ?av \<noteq> {}" unfolding set_av by blast
  then obtain first others where av: "?av = first # others" by (cases ?av) auto
  have srt': "sorted (map distance (first # others))"
    using sorted_filter [OF srt, of ?ok] av by simp
  show ?thesis
  proof (cases "?high \<or> find ?low (first # others) = None")
    case True
    then have "selectOptimalLocation cfg l locations = Some first"
      by (auto simp add: selectOptimalLocation_def av)
    moreover have "followsPolicy ?high (set ?av) first"
      unfolding av using policy_first [OF srt' True] .
    ultimately show ?thesis unfolding set_av by blast
  next
    case False
    then have nh: "\<not> ?high" by blast
    from False obtain c where f: "find ?low (first # others) = Some c" by auto
    have "selectOptimalLocation cfg l locations = Some c"
      using nh f by (simp add: selectOptimalLocation_def av)
    moreover have "followsPolicy ?high (set ?av) c"
      unfolding av using policy_low_traffic [OF srt' nh f] .
    ultimately show ?thesis unfolding set_av by blast
  qed
qed

lemma checkLocationCapacities_distance:
  "map distance (checkLocationCapacities e draws locations) = map distance locations"
proof -
  have "map distance (checkLocationCapacities e draws locations) =
        map (distance \<circ> snd) (enumerate 0 locations)"
    by (simp add: checkLocationCapacities_def case_prod_beta comp_def)
  also have "\<dots> = map distance (map snd (enumerate 0 locations))" by (simp only: map_map)
  also have "\<dots> = map distance locations" by (simp only: map_snd_enumerate)
  finally show ?thesis .
qed

lemma checkLocationCapacities_loc:
  "map loc (checkLocationCapacities e draws locations) = map loc locations"
proof -
  have "map loc (checkLocationCapacities e draws locations) =
        map (loc \<circ> snd) (enumerate 0 locations)"
    by (simp add: checkLocationCapacities_def case_prod_beta comp_def)
  also have "\<dots> = map loc (map snd (enumerate 0 locations))" by (simp only: map_map)
  also have "\<dots> = map loc locations" by (simp only: map_snd_enumerate)
  finally show ?thesis .
qed

lemma candidates_prod_sorted:
  "sorted (map distance (candidates_prod cfg e draws cache z locations))"
  by (simp add: candidates_prod_def checkLocationCapacities_distance getNearestLocationsReal_def)

lemma candidates_prod_Nil:
  "candidates_prod cfg e draws cache z locations = [] \<longleftrightarrow>
     fst (getNearestLocationsReal cfg e cache z locations) = []"
  by (simp add: candidates_prod_def checkLocationCapacities_def flip: length_0_conv)


text \<open>
  The class: with a candidate that has capacity and status \<^verbatim>\<open>active\<close>, \<^verbatim>\<open>routeLead\<close>
  routes the lead by the policy over those candidates.
\<close>

lemma routeLead_prod_policy:
  assumes v: "validateLead (Some l)" and zip: "leadZip l = Some z"
    and ex: "\<exists>c\<in>set (candidates_prod cfg e draws cache z locations). isAvailable_prod c"
  shows "\<exists>sel reason.
           result (routeLead_prod cfg e draws cache (Some l) locations) =
             Routed sel reason
               (scoreAtLeast (calculateLeadScore_prod (wallClockHour e) l)
                  (HIGH_SCORE_THRESHOLD cfg)) \<and>
           followsPolicy
             (scoreAtLeast (calculateLeadScore_prod (wallClockHour e) l)
                (HIGH_SCORE_THRESHOLD cfg))
             {c \<in> set (candidates_prod cfg e draws cache z locations). isAvailable_prod c} sel"
proof -
  let ?cands = "candidates_prod cfg e draws cache z locations"
  let ?l' = "l\<lparr>finalScore := Some (calculateLeadScore_prod (wallClockHour e) l)\<rparr>"
  let ?high = "scoreAtLeast (calculateLeadScore_prod (wallClockHour e) l) (HIGH_SCORE_THRESHOLD cfg)"
  from ex have "?cands \<noteq> []" by auto
  then have ne: "fst (getNearestLocationsReal cfg e cache z locations) \<noteq> []"
    using candidates_prod_Nil by blast
  from selectOptimalLocation_policy [OF candidates_prod_sorted ex, of cfg ?l']
  obtain sel where sel: "selectOptimalLocation cfg ?l' ?cands = Some sel"
    and pol: "followsPolicy ?high {c \<in> set ?cands. isAvailable_prod c} sel"
    by auto
  have "result (routeLead_prod cfg e draws cache (Some l) locations) =
      Routed sel (getRoutingReason cfg ?l' sel) ?high"
    using v zip ne sel
    by (simp add: routeLead_prod_def Let_def candidates_prod_def split_beta)
  with pol show ?thesis by blast
qed

lemma valid_leads: "validateLead (Some standardLead)" "validateLead (Some priorityLead)"
  by (simp_all add: validateLead_def standardLead_def priorityLead_def isDigit_def)

lemma more_zips: "leadZip priorityLead = Some ''90210''"
  by (simp add: priorityLead_def)

lemma env_geo: "geo envStore = geo envLA" "geo envOneSlot = geo envLA"
  "wallClockHour envStore = 3" "wallClockHour envOneSlot = 3"
  by (simp_all add: envStore_def envOneSlot_def envLA_def)

lemma statuses: "status hub = ''active''" "status wellness = ''active''"
  by (simp_all add: hub_def wellness_def)

lemma priorities: "priority hub = ''high-traffic''" "priority wellness = ''low-traffic''"
  by (simp_all add: hub_def wellness_def)






section \<open>Fallback\<close>

text \<open>
  C2, as amended. In a call of \<^verbatim>\<open>routeLead\<close> with fallback enabled where no location in
  range has capacity and at least one location in range is operational, the result is the
  waitlist outcome naming an operational location in range with the greatest
  \<^verbatim>\<open>availableSlots\<close>, and among those of the same \<^verbatim>\<open>availableSlots\<close> one of least
  distance.
\<close>

theorem routeLead_fallback_greatest_slots:
  assumes zip: "leadZip l = Some z" "z \<noteq> []"
    and fb: "FALLBACK_ENABLED cfg"
    and full: "\<forall>x\<in>set locations. inRange cfg e z x \<longrightarrow>
                 \<not> hasCapacity (checkLocationCapacity cfg e x)"
    and op: "\<exists>x\<in>set locations. inRange cfg e z x \<and> isOperationalAt cfg e x"
  shows "\<exists>sel. result (routeLead cfg e (Some l) locations) =
             Waitlist sel (scoreAtLeast (calculateLeadScore (wallClockHour e) l) (HIGH_SCORE_THRESHOLD cfg)) \<and>
           loc sel \<in> set locations \<and> inRange cfg e z (loc sel) \<and>
           isOperationalAt cfg e (loc sel) \<and>
           distance sel = calculateDistanceReal (geo e) z (zipCode (loc sel)) \<and>
           capacity sel = checkLocationCapacity cfg e (loc sel) \<and>
           (\<forall>x\<in>set locations. inRange cfg e z x \<and> isOperationalAt cfg e x \<longrightarrow>
              slotsAt cfg e x \<le> slotsAt cfg e (loc sel) \<and>
              (slotsAt cfg e x = slotsAt cfg e (loc sel) \<longrightarrow>
                 distance sel \<le> calculateDistanceReal (geo e) z (zipCode x)))"
proof -
  let ?ops = "operationalOf cfg e z locations"
  let ?k = "\<lambda>c::candidate. - availableSlots (capacity c)"
  let ?mk = "\<lambda>x. \<lparr>loc = x, distance = calculateDistanceReal (geo e) z (zipCode x),
            capacity = checkLocationCapacity cfg e x\<rparr>"
  have "set (availableOf cfg e z locations) = {}"
    unfolding available_set isAvailable_def using full by blast
  then have av: "availableOf cfg e z locations = []" by simp
  from op have "set ?ops \<noteq> {}" unfolding operational_set by blast
  then have "sort_key ?k ?ops \<noteq> []" by (metis set_sort set_empty)
  then obtain sel rest where s: "sort_key ?k ?ops = sel # rest"
    by (cases "sort_key ?k ?ops") auto
  have res: "result (routeLead cfg e (Some l) locations) =
      Waitlist sel (scoreAtLeast (calculateLeadScore (wallClockHour e) l) (HIGH_SCORE_THRESHOLD cfg))"
    using routeLead_fallback [OF zip fb av s] .
  have "sel \<in> set (sort_key ?k ?ops)" using s by simp
  then have selmem: "sel \<in> set ?ops" by simp
  then obtain x0 where x0: "x0 \<in> set locations" "inRange cfg e z x0"
    "isOperationalAt cfg e x0" "sel = ?mk x0"
    unfolding operational_set by blast
  have best: "slotsAt cfg e x \<le> slotsAt cfg e (loc sel) \<and>
              (slotsAt cfg e x = slotsAt cfg e (loc sel) \<longrightarrow>
                 distance sel \<le> calculateDistanceReal (geo e) z (zipCode x))"
    if "x \<in> set locations" "inRange cfg e z x" "isOperationalAt cfg e x" for x
  proof -
    have m: "?mk x \<in> set ?ops" unfolding operational_set using that by blast
    have "?k sel \<le> ?k (?mk x)"
      using sort_key_head_stable(1) [OF s operational_sorted m] .
    moreover have "?k (?mk x) = ?k sel \<Longrightarrow> distance sel \<le> distance (?mk x)"
      using sort_key_head_stable(2) [OF s operational_sorted m] .
    ultimately show ?thesis using x0(4) by (simp add: slotsAt_def)
  qed
  from res x0 best show ?thesis by (intro exI [of _ sel]) simp
qed

theorem routeLead_fallback_greatest_slots_witness:
  "FALLBACK_ENABLED CONFIG \<and>
   \<not> hasCapacity (checkLocationCapacity CONFIG envLA hubFull) \<and>
   \<not> hasCapacity (checkLocationCapacity CONFIG envLA wellnessFull) \<and>
   inRange CONFIG envLA ''90210'' wellnessFull \<and> isOperationalAt CONFIG envLA wellnessFull \<and>
   result (routeLead CONFIG envLA (Some standardLead) [hubFull, wellnessFull]) =
     Waitlist \<lparr>loc = wellnessFull, distance = 0,
               capacity = \<lparr>hasCapacity = False, availableSlots = - 2, isOperational = True\<rparr>\<rparr>
       False"
proof -
  have z: "leadZip standardLead = Some ''90210''" "''90210'' \<noteq> []"
    by (simp_all add: lead_zips)
  have fb: "FALLBACK_ENABLED CONFIG" by (simp add: CONFIG_fields)
  have full: "\<forall>x\<in>set [hubFull, wellnessFull]. inRange CONFIG envLA ''90210'' x \<longrightarrow>
      \<not> hasCapacity (checkLocationCapacity CONFIG envLA x)"
    by (simp add: cap_hubFull cap_wellnessFull)
  have w: "inRange CONFIG envLA ''90210'' wellnessFull \<and> isOperationalAt CONFIG envLA wellnessFull"
    by (simp add: inRange_def isOperationalAt_def cap_wellnessFull zips dist_LA CONFIG_fields)
  then have op: "\<exists>x\<in>set [hubFull, wellnessFull].
      inRange CONFIG envLA ''90210'' x \<and> isOperationalAt CONFIG envLA x"
    by simp
  from routeLead_fallback_greatest_slots [OF z fb full op] obtain sel where
    r: "result (routeLead CONFIG envLA (Some standardLead) [hubFull, wellnessFull]) = Waitlist sel
          (scoreAtLeast (calculateLeadScore (wallClockHour envLA) standardLead) (HIGH_SCORE_THRESHOLD CONFIG))"
    and m: "loc sel \<in> set [hubFull, wellnessFull]"
    and d: "distance sel = calculateDistanceReal (geo envLA) ''90210'' (zipCode (loc sel))"
    and c: "capacity sel = checkLocationCapacity CONFIG envLA (loc sel)"
    and best: "slotsAt CONFIG envLA wellnessFull \<le> slotsAt CONFIG envLA (loc sel)"
    using w by auto
  have "loc sel \<noteq> hubFull"
    using best by (auto simp add: slotsAt_def cap_hubFull cap_wellnessFull)
  with m have "loc sel = wellnessFull" by simp
  with d c have "sel = \<lparr>loc = wellnessFull, distance = 0,
               capacity = \<lparr>hasCapacity = False, availableSlots = - 2, isOperational = True\<rparr>\<rparr>"
    by (cases sel) (simp add: zips dist_LA cap_wellnessFull)
  with r fb w show ?thesis
    by (simp add: cap_hubFull cap_wellnessFull envLA_fields score_standard CONFIG_fields)
qed

text \<open>
  C2 as stated fails when no location in range is operational: with fallback enabled and
  the only location in range full and under maintenance, the result is the failure
  \<^verbatim>\<open>NO_CAPACITY\<close>, not a waitlist outcome.
\<close>

theorem routeLead_fallback_none_operational_counterexample:
  "FALLBACK_ENABLED CONFIG \<and> inRange CONFIG envLA ''90210'' hubClosed \<and>
   \<not> hasCapacity (checkLocationCapacity CONFIG envLA hubClosed) \<and>
   result (routeLead CONFIG envLA (Some standardLead) [hubClosed]) = Failure NO_CAPACITY"
  by (simp add: routeLead_hubClosed inRange_def zips dist_LA cap_hubClosed CONFIG_fields)

section \<open>The candidate list\<close>

text \<open>
  The list of the class: sorted by distance, and at each distance within the radius the
  locations of that (cached or computed) distance in the order of the input.
\<close>

lemma getNearestLocationsReal_stable:
  "sorted (map distance (fst (getNearestLocationsReal cfg e cache z locations))) \<and>
   (\<forall>d. filter (\<lambda>c. distance c = d) (fst (getNearestLocationsReal cfg e cache z locations)) =
        filter (\<lambda>c. distance c = d \<and> d \<le> ZIP_RADIUS_MILES cfg)
          (map (withDistance_prod e cache z) locations))"
proof -
  have "filter (\<lambda>c. distance c = d) (fst (getNearestLocationsReal cfg e cache z locations)) =
        filter (\<lambda>c. distance c = d \<and> d \<le> ZIP_RADIUS_MILES cfg)
          (map (withDistance_prod e cache z) locations)" for d
  proof -
    have "filter (\<lambda>c. distance c = d) (fst (getNearestLocationsReal cfg e cache z locations)) =
        filter (\<lambda>c. distance c = d)
          (filter (\<lambda>l. distance l \<le> ZIP_RADIUS_MILES cfg)
             (map (withDistance_prod e cache z) locations))"
      unfolding getNearestLocationsReal_def fst_conv by (rule sort_key_stable)
    also have "\<dots> = filter (\<lambda>c. distance c = d \<and> d \<le> ZIP_RADIUS_MILES cfg)
          (map (withDistance_prod e cache z) locations)"
      by (induction locations) auto
    finally show ?thesis .
  qed
  moreover have "sorted (map distance (fst (getNearestLocationsReal cfg e cache z locations)))"
    by (simp add: getNearestLocationsReal_def)
  ultimately show ?thesis by blast
qed




section \<open>Lead score\<close>

lemma cap_round:
  fixes x :: real
  assumes "0 \<le> x"
  shows "min 100 (round x) = round (max 0 (min 100 x))"
proof (cases "x \<le> 100")
  case True
  then have "round x \<le> round (100::real)" by (rule round_mono)
  then have "round x \<le> 100" by simp
  moreover have "max 0 (min 100 x) = x" using True assms by simp
  ultimately show ?thesis by simp
next
  case False
  then have "round (100::real) \<le> round x" by (intro round_mono) simp
  then have "100 \<le> round x" by simp
  moreover have "max 0 (min 100 x) = 100" using False by simp
  ultimately show ?thesis by simp
qed

lemma sourceMultipliers_pos: "sourceMultipliers s = Some m \<Longrightarrow> 0 < m"
  by (auto simp add: sourceMultipliers_def split: if_splits option.splits)

lemma scoreFrom_spec:
  assumes "sourceMultipliers (source l) = Some m"
  shows "scoreFrom s hour l =
     Score (round (max 0 (min 100
       (real s * m
        + (if truthy (phone l) \<and> truthy (email l) \<and> truthy (firstName l) then 10 else 0)
        + (if 9 \<le> hour \<and> hour \<le> 17 then 5 else 0)))))"
proof -
  have "0 \<le> real s * m"
    using sourceMultipliers_pos [OF assms] by simp
  then have "0 \<le> real s * m
        + (if truthy (phone l) \<and> truthy (email l) \<and> truthy (firstName l) then 10 else 0)
        + (if 9 \<le> hour \<and> hour \<le> 17 then 5 else 0)" by simp
  from cap_round [OF this, symmetric] show ?thesis
    using assms by (simp add: scoreFrom_def Let_def)
qed

text \<open>
  Where the scorers agree with the score of the specification: the scorer of the class
  unless the raw signal is 0, the scorer of the code action unless it is absent, in both
  cases for a source that is not an inherited property name. The score is then an integer
  between 0 and 100.
\<close>

lemma calculateLeadScore_agrees:
  assumes "sourceMultipliers (source l) \<noteq> None"
  shows "leadScore l \<noteq> Some 0 \<Longrightarrow> calculateLeadScore_prod hour l = Score (score_spec hour l)"
    and "leadScore l \<noteq> None \<Longrightarrow> calculateLeadScore hour l = Score (score_spec hour l)"
    and "0 \<le> score_spec hour l \<and> score_spec hour l \<le> 100"
proof -
  from assms obtain m where m: "sourceMultipliers (source l) = Some m" by auto
  show "calculateLeadScore_prod hour l = Score (score_spec hour l)" if "leadScore l \<noteq> Some 0"
    using that m
    by (cases "leadScore l")
      (simp_all add: calculateLeadScore_prod_def score_spec_def scoreFrom_spec [OF m])
  show "calculateLeadScore hour l = Score (score_spec hour l)" if "leadScore l \<noteq> None"
    using that m
    by (cases "leadScore l")
      (simp_all add: calculateLeadScore_def score_spec_def scoreFrom_spec [OF m])
  have "round (0::real) \<le> round (max 0 (min 100 y))" "round (max 0 (min 100 y)) \<le> round (100::real)"
    for y :: real
    by (rule round_mono, simp)+
  then show "0 \<le> score_spec hour l \<and> score_spec hour l \<le> 100"
    unfolding score_spec_def by simp
qed

text \<open>
  C4. The score is the raw signal, 50 when absent, times the source multiplier, plus the
  bonuses, clamped to \<open>[0, 100]\<close> and rounded. The scorers miss this in three ways. The
  scorer of the code action takes an absent raw signal as 0, where the class takes 50:
  the lead without raw signal gets 0 instead of 50. The scorer of the class takes a raw
  signal of 0 as absent: the lead with raw signal 0 gets 50 instead of 0. For a source
  that is a property name every object inherits, both scorers return \<^verbatim>\<open>NaN\<close>.
\<close>

theorem calculateLeadScore_defaults_evaluated:
  "leadScore unscoredLead = None \<and> score_spec 3 unscoredLead = 50 \<and>
   calculateLeadScore_prod 3 unscoredLead = Score 50 \<and>
   calculateLeadScore 3 unscoredLead = Score 0 \<and>
   leadScore zeroLead = Some 0 \<and> score_spec 3 zeroLead = 0 \<and>
   calculateLeadScore 3 zeroLead = Score 0 \<and>
   calculateLeadScore_prod 3 zeroLead = Score 50 \<and>
   source constructorLead = Some ''constructor'' \<and>
   calculateLeadScore 3 constructorLead = NaN \<and>
   calculateLeadScore_prod 3 constructorLead = NaN"
proof -
  have m: "sourceMultipliers (Some ''website'') = Some 1"
    "sourceMultipliers (Some ''constructor'') = None"
    by (simp_all add: sourceMultipliers_def inheritedProperty_def)
  have src: "source unscoredLead = Some ''website''" "source zeroLead = Some ''website''"
    "source constructorLead = Some ''constructor''"
    by (simp_all add: unscoredLead_def zeroLead_def constructorLead_def standardLead_def)
  have sig: "leadScore unscoredLead = None" "leadScore zeroLead = Some 0"
    by (simp_all add: unscoredLead_def zeroLead_def)
  have prof: "\<not> truthy (firstName unscoredLead)" "\<not> truthy (firstName zeroLead)"
    by (simp_all add: unscoredLead_def zeroLead_def standardLead_def)
  have "score_spec 3 unscoredLead = 50" "score_spec 3 zeroLead = 0"
    by (simp_all add: score_spec_def src m sig prof)
  moreover have "calculateLeadScore_prod 3 unscoredLead = Score 50"
    "calculateLeadScore 3 unscoredLead = Score 0"
    "calculateLeadScore 3 zeroLead = Score 0"
    "calculateLeadScore_prod 3 zeroLead = Score 50"
    by (simp_all add: calculateLeadScore_def calculateLeadScore_prod_def scoreFrom_def
        src m sig prof)
  moreover have "calculateLeadScore 3 constructorLead = NaN"
    "calculateLeadScore_prod 3 constructorLead = NaN"
    by (simp_all add: calculateLeadScore_def calculateLeadScore_prod_def scoreFrom_def src m)
  ultimately show ?thesis using sig src(3) by simp
qed

text \<open>
  C6, as amended. Neither scorer takes a time argument; each reads the hour of the wall
  clock when it is called. The score is a function of the lead data and of whether that
  hour lies between 9 and 17: two calls with the same lead data at hours that agree on
  this return the same score.
\<close>

theorem calculateLeadScore_same_business_hours:
  assumes "(9 \<le> h1 \<and> h1 \<le> 17) = (9 \<le> h2 \<and> h2 \<le> 17)"
  shows "calculateLeadScore h1 l = calculateLeadScore h2 l \<and>
         calculateLeadScore_prod h1 l = calculateLeadScore_prod h2 l"
proof -
  have "scoreFrom s h1 l = scoreFrom s h2 l" for s
  proof (cases "sourceMultipliers (source l)")
    case None
    then show ?thesis by (simp add: scoreFrom_def)
  next
    case (Some m)
    then show ?thesis using assms by (simp add: scoreFrom_def Let_def)
  qed
  then show ?thesis by (simp add: calculateLeadScore_def calculateLeadScore_prod_def)
qed

theorem calculateLeadScore_same_business_hours_witness:
  "calculateLeadScore 9 standardLead = calculateLeadScore 17 standardLead \<and>
   calculateLeadScore_prod 9 standardLead = calculateLeadScore_prod 17 standardLead"
  using calculateLeadScore_same_business_hours [of 9 17 standardLead] by simp

text \<open>
  C6 as stated fails: the same lead data scored when the wall clock reads 8 and when it
  reads 9 gets different scores.
\<close>

theorem calculateLeadScore_wall_clock_counterexample:
  "calculateLeadScore 8 standardLead = Score 50 \<and> calculateLeadScore 9 standardLead = Score 55 \<and>
   calculateLeadScore_prod 8 standardLead = Score 50 \<and>
   calculateLeadScore_prod 9 standardLead = Score 55"
  by (simp add: calculateLeadScore_def calculateLeadScore_prod_def scoreFrom_def
      standardLead_def sourceMultipliers_def)

section \<open>Input validation\<close>

text \<open>
  A missing or empty zip code ends \<^verbatim>\<open>routeLead\<close> of the code action with
  \<^verbatim>\<open>INVALID_ZIP\<close> before any request; a zip code that is not five digits ends
  \<^verbatim>\<open>routeLead\<close> of the class with \<^verbatim>\<open>INVALID_LEAD\<close> before any request.
\<close>

lemma routeLead_missing_zip:
  assumes "\<not> truthy (leadZip l)"
  shows "routeLead cfg e (Some l) locations =
           \<lparr>result = Failure INVALID_ZIP, leadAfter = Some l, geoLookups = [],
            capacityFetches = []\<rparr>"
  using assms by (cases "leadZip l") (simp_all add: routeLead_def)

lemma routeLead_prod_malformed_zip:
  assumes "\<not> wellFormedZip (leadZip l)"
  shows "routeLead_prod cfg e draws cache (Some l) locations =
           \<lparr>result = Failure INVALID_LEAD, leadAfter = Some l, geoLookups = [],
            capacityFetches = [], cacheAfter = cache\<rparr>"
proof -
  from assms have "\<not> validateLead (Some l)"
    by (auto simp add: validateLead_def wellFormedZip_def split: option.splits)
  then show ?thesis by (simp add: routeLead_prod_def)
qed

text \<open>
  C5. A lead whose postal code is not five digits must get the invalid-input failure with
  no geocoding work. \<^verbatim>\<open>routeLead\<close> of the code action checks only that the zip code is
  present: for the zip code \<^verbatim>\<open>9021O\<close> it scores the lead, asks the zip-code service for
  both zip codes and returns \<^verbatim>\<open>OUT_OF_RANGE\<close>.
\<close>

theorem routeLead_malformed_zip_not_rejected:
  "\<not> wellFormedZip (leadZip malformedLead) \<and>
   routeLead CONFIG envLA (Some malformedLead) [hub] =
     \<lparr>result = Failure OUT_OF_RANGE, leadAfter = Some (malformedLead\<lparr>finalScore := Some (Score 50)\<rparr>),
      geoLookups = [''9021O'', ''90210''], capacityFetches = []\<rparr>"
proof -
  have d: "calculateDistanceReal (geo envLA) ''9021O'' ''90210'' = 999"
    by (simp add: calculateDistanceReal_def envLA_def)
  have s: "calculateLeadScore 3 malformedLead = Score 50"
    by (simp add: calculateLeadScore_def scoreFrom_def malformedLead_def standardLead_def
        sourceMultipliers_def)
  have w: "\<not> wellFormedZip (leadZip malformedLead)"
    by (simp add: wellFormedZip_def malformedLead_def isDigit_def)
  have "routeLead CONFIG envLA (Some malformedLead) [hub] =
     \<lparr>result = Failure OUT_OF_RANGE, leadAfter = Some (malformedLead\<lparr>finalScore := Some (Score 50)\<rparr>),
      geoLookups = [''9021O'', ''90210''], capacityFetches = []\<rparr>"
    by (simp add: routeLead_def Let_def getNearestLocations_def withDistance_def
        zips d s CONFIG_fields lead_zips envLA_fields)
  with w show ?thesis by simp
qed

section \<open>Distance\<close>

text \<open>
  C8. When the coordinates of either zip code are unresolved, the distance is the sentinel
  999; the location is then not in the list that the radius filter passes on, for any
  service radius below 999, in the code action and (when the distance is not taken from the
  cache) in the class.
\<close>

theorem unresolved_distance_excluded:
  assumes un: "geo e z = None \<or> geo e (zipCode x) = None"
    and r: "ZIP_RADIUS_MILES cfg < 999"
  shows "calculateDistanceReal (geo e) z (zipCode x) = 999 \<and>
         (\<forall>c\<in>set (getNearestLocations cfg e z locations). loc c \<noteq> x) \<and>
         (cache (cacheKey z (zipCode x)) = None \<longrightarrow>
            (\<forall>c\<in>set (fst (getNearestLocationsReal cfg e cache z locations)). loc c \<noteq> x))"
proof -
  have d: "calculateDistanceReal (geo e) z (zipCode x) = 999"
    using un by (auto simp add: calculateDistanceReal_def split: option.splits)
  have "loc c \<noteq> x" if "c \<in> set (getNearestLocations cfg e z locations)" for c
  proof
    assume "loc c = x"
    with that d r show False
      by (auto simp add: getNearestLocations_def withDistance_def)
  qed
  moreover have "loc c \<noteq> x"
    if "cache (cacheKey z (zipCode x)) = None"
      and "c \<in> set (fst (getNearestLocationsReal cfg e cache z locations))" for c
  proof
    assume "loc c = x"
    from that(2) obtain y where y: "c = withDistance_prod e cache z y"
      "distance c \<le> ZIP_RADIUS_MILES cfg"
      by (auto simp add: getNearestLocationsReal_def)
    have "loc (withDistance_prod e cache z y) = y"
      by (simp add: withDistance_prod_def split: option.splits)
    with y \<open>loc c = x\<close> have "y = x" by simp
    with y that(1) have "distance c = calculateDistanceReal (geo e) z (zipCode x)"
      by (simp add: withDistance_prod_def)
    with y(2) d r show False by simp
  qed
  ultimately show ?thesis using d by blast
qed

theorem unresolved_distance_excluded_witness:
  "geo envLA (zipCode manhattan) = None \<and> ZIP_RADIUS_MILES CONFIG < 999 \<and>
   calculateDistanceReal (geo envLA) ''90210'' (zipCode manhattan) = 999 \<and>
   getNearestLocations CONFIG envLA ''90210'' [manhattan, hub] = [\<lparr>loc = hub, distance = 0\<rparr>] \<and>
   fst (getNearestLocationsReal CONFIG envLA Map.empty ''90210'' [manhattan, hub]) =
     [\<lparr>loc = hub, distance = 0\<rparr>]"
proof -
  have n: "geo envLA (zipCode manhattan) = None"
    by (simp add: envLA_def zips)
  then have u: "geo envLA ''90210'' = None \<or> geo envLA (zipCode manhattan) = None" ..
  have r: "ZIP_RADIUS_MILES CONFIG < 999" by (simp add: CONFIG_fields)
  have "getNearestLocations CONFIG envLA ''90210'' [manhattan, hub] =
      [\<lparr>loc = hub, distance = 0\<rparr>]"
    "fst (getNearestLocationsReal CONFIG envLA Map.empty ''90210'' [manhattan, hub]) =
     [\<lparr>loc = hub, distance = 0\<rparr>]"
    by (simp_all add: getNearestLocations_def getNearestLocationsReal_def withDistance_def
        withDistance_prod_def zips dist_LA dist_NY CONFIG_fields)
  with unresolved_distance_excluded [OF u r, of "[manhattan, hub]" Map.empty] n r
  show ?thesis by simp
qed

lemma sin_sq_swap:
  fixes x y :: real
  shows "sin ((x - y) * pi / 180 / 2) * sin ((x - y) * pi / 180 / 2) =
         sin ((y - x) * pi / 180 / 2) * sin ((y - x) * pi / 180 / 2)"
proof -
  have "(x - y) * pi / 180 / 2 = - ((y - x) * pi / 180 / 2)" by (simp add: field_simps)
  then show ?thesis by (simp only: sin_minus minus_mult_minus)
qed

lemma haversine_term_swap:
  fixes p q c d s t :: real
  assumes "p * p = q * q" and "s * s = t * t"
  shows "p * p + c * d * s * s = q * q + d * c * t * t"
proof -
  have "c * d * s * s = d * c * (s * s)" by (simp add: mult.assoc mult.commute)
  also have "\<dots> = d * c * (t * t)" using assms(2) by simp
  also have "\<dots> = d * c * t * t" by (simp add: mult.assoc)
  finally show ?thesis using assms(1) by simp
qed

text \<open>
  C9. The distance is symmetric: the haversine distance of two coordinates, and with it
  the distance of two zip codes, does not depend on their order (on the reals).
\<close>

theorem distance_symmetric:
  "calculateHaversineDistance A B = calculateHaversineDistance B A \<and>
   calculateDistanceReal g zip1 zip2 = calculateDistanceReal g zip2 zip1"
proof -
  have hav: "calculateHaversineDistance P Q = calculateHaversineDistance Q P" for P Q
    unfolding calculateHaversineDistance_def Let_def
    using haversine_term_swap
      [OF sin_sq_swap [of "lat Q" "lat P"] sin_sq_swap [of "lng Q" "lng P"],
        of "cos (lat P * pi / 180)" "cos (lat Q * pi / 180)"]
    by (simp only:)
  have "calculateDistanceReal g zip1 zip2 = calculateDistanceReal g zip2 zip1"
  proof (cases "g zip1")
    case None
    then show ?thesis by (simp add: calculateDistanceReal_def split: option.splits)
  next
    case c1: (Some coords1)
    show ?thesis
    proof (cases "g zip2")
      case None
      with c1 show ?thesis by (simp add: calculateDistanceReal_def)
    next
      case (Some coords2)
      with c1 hav [of coords1 coords2] show ?thesis by (simp add: calculateDistanceReal_def)
    qed
  qed
  with hav [of A B] show ?thesis by simp
qed

theorem distance_symmetric_witness:
  "calculateHaversineDistance \<lparr>lat = 34, lng = -118\<rparr> \<lparr>lat = 40, lng = -73\<rparr> =
     calculateHaversineDistance \<lparr>lat = 40, lng = -73\<rparr> \<lparr>lat = 34, lng = -118\<rparr> \<and>
   calculateDistanceReal (geo envLA) ''10001'' ''90210'' = 999 \<and>
   calculateDistanceReal (geo envLA) ''90210'' ''10001'' = 999"
  using distance_symmetric [of "\<lparr>lat = 34, lng = -118\<rparr>" "\<lparr>lat = 40, lng = -73\<rparr>"
      "geo envLA" "''10001''" "''90210''"]
  by (simp add: dist_NY)

section \<open>The lead object after a call\<close>

text \<open>
  C10. A call that passes input validation leaves the caller's lead object with
  \<^verbatim>\<open>finalScore\<close> set to the computed score, whatever the result of the call, also when
  the result is \<^verbatim>\<open>OUT_OF_RANGE\<close> or \<^verbatim>\<open>NO_CAPACITY\<close>; this holds for the code action and
  for the class.
\<close>

theorem routeLead_writes_finalScore:
  "(truthy (leadZip l) \<and> locations \<noteq> [] \<longrightarrow>
      leadAfter (routeLead cfg e (Some l) locations) =
        Some (l\<lparr>finalScore := Some (calculateLeadScore (wallClockHour e) l)\<rparr>)) \<and>
   (validateLead (Some l) \<longrightarrow>
      leadAfter (routeLead_prod cfg e draws cache (Some l) locations) =
        Some (l\<lparr>finalScore := Some (calculateLeadScore_prod (wallClockHour e) l)\<rparr>))"
proof (intro conjI impI)
  assume "truthy (leadZip l) \<and> locations \<noteq> []"
  then show "leadAfter (routeLead cfg e (Some l) locations) =
        Some (l\<lparr>finalScore := Some (calculateLeadScore (wallClockHour e) l)\<rparr>)"
    by (cases "leadZip l") (simp_all add: routeLead_def Let_def)
next
  assume "validateLead (Some l)"
  then show "leadAfter (routeLead_prod cfg e draws cache (Some l) locations) =
        Some (l\<lparr>finalScore := Some (calculateLeadScore_prod (wallClockHour e) l)\<rparr>)"
    by (cases "leadZip l")
      (simp_all add: routeLead_prod_def validateLead_def Let_def
        split: prod.splits option.splits)
qed

theorem routeLead_writes_finalScore_witness:
  "result (routeLead CONFIG envLA (Some farLead) [hub]) = Failure OUT_OF_RANGE \<and>
   leadAfter (routeLead CONFIG envLA (Some farLead) [hub]) =
     Some (farLead\<lparr>finalScore := Some (Score 50)\<rparr>) \<and>
   result (routeLead_prod CONFIG envLA noDraws Map.empty (Some farLead) [hub]) =
     Failure OUT_OF_RANGE \<and>
   leadAfter (routeLead_prod CONFIG envLA noDraws Map.empty (Some farLead) [hub]) =
     Some (farLead\<lparr>finalScore := Some (Score 50)\<rparr>) \<and>
   farLead\<lparr>finalScore := Some (Score 50)\<rparr> \<noteq> farLead"
proof -
  have d: "calculateDistanceReal (geo envLA) ''99999'' ''90210'' = 999"
    by (simp add: calculateDistanceReal_def envLA_def)
  have v: "truthy (leadZip farLead) \<and> [hub] \<noteq> []" "validateLead (Some farLead)"
    by (simp_all add: farLead_def standardLead_def validateLead_def isDigit_def)
  have s: "calculateLeadScore (wallClockHour envLA) farLead = Score 50"
    "calculateLeadScore_prod (wallClockHour envLA) farLead = Score 50"
    by (simp_all add: calculateLeadScore_def calculateLeadScore_prod_def scoreFrom_def
        farLead_def standardLead_def sourceMultipliers_def envLA_def)
  have r1: "result (routeLead CONFIG envLA (Some farLead) [hub]) = Failure OUT_OF_RANGE"
    by (simp add: routeLead_def lead_zips Let_def getNearestLocations_def withDistance_def
        zips d CONFIG_fields)
  have r2: "result (routeLead_prod CONFIG envLA noDraws Map.empty (Some farLead) [hub]) =
      Failure OUT_OF_RANGE"
    using v(2)
    by (simp add: routeLead_prod_def lead_zips Let_def getNearestLocationsReal_def
        withDistance_prod_def zips d CONFIG_fields)
  have ne: "farLead\<lparr>finalScore := Some (Score 50)\<rparr> \<noteq> farLead"
    by (simp add: farLead_def standardLead_def)
  from routeLead_writes_finalScore [of farLead "[hub]" CONFIG envLA noDraws Map.empty]
    v s r1 r2 ne
  show ?thesis by simp
qed

section \<open>Calls one after another\<close>

lemma routeLead_single:
  assumes "leadZip l = Some z" and "z \<noteq> []"
    and "inRange cfg e z x" and "isAvailable cfg e x"
  shows "routedTo x (result (routeLead cfg e (Some l) [x]))"
proof -
  have "\<exists>y\<in>set [x]. inRange cfg e z y \<and> isAvailable cfg e y" using assms(3,4) by simp
  from routeLead_policy [OF assms(1,2) this] obtain sel reason high where
    r: "result (routeLead cfg e (Some l) [x]) = Routed sel reason high"
    and p: "followsPolicy high
        (candidateOf cfg e z ` {y \<in> set [x]. inRange cfg e z y \<and> isAvailable cfg e y}) sel"
    by blast
  from p have "loc sel = x" by (auto simp add: followsPolicy_def candidateOf_def)
  with r show ?thesis by simp
qed

lemma candidates_prod_single:
  assumes "distance (withDistance_prod e cache z x) \<le> ZIP_RADIUS_MILES cfg"
  shows "candidates_prod cfg e draws cache z [x] =
           [\<lparr>loc = x, distance = distance (withDistance_prod e cache z x),
             capacity = getLocationCapacityReal e draws 0 (locId x)\<rparr>]"
proof -
  have "loc (withDistance_prod e cache z x) = x"
    by (simp add: withDistance_prod_def split: option.splits)
  then show ?thesis
    using assms
    by (simp add: candidates_prod_def getNearestLocationsReal_def checkLocationCapacities_def)
qed

lemma routeLead_prod_single:
  assumes v: "validateLead (Some l)" and zip: "leadZip l = Some z"
    and st: "status x = ''active''"
    and cap: "hasCapacity (getLocationCapacityReal e draws 0 (locId x))"
    and d: "distance (withDistance_prod e cache z x) \<le> ZIP_RADIUS_MILES cfg"
  shows "routedTo x (result (routeLead_prod cfg e draws cache (Some l) [x]))"
proof -
  note cands = candidates_prod_single [OF d, of draws]
  have "\<exists>c\<in>set (candidates_prod cfg e draws cache z [x]). isAvailable_prod c"
    using st cap by (simp add: cands isAvailable_prod_def)
  from routeLead_prod_policy [OF v zip this] obtain sel reason high where
    r: "result (routeLead_prod cfg e draws cache (Some l) [x]) = Routed sel reason high"
    and p: "followsPolicy high
        {c \<in> set (candidates_prod cfg e draws cache z [x]). isAvailable_prod c} sel"
    by blast
  from p have "loc sel = x" by (auto simp add: followsPolicy_def cands)
  with r show ?thesis by simp
qed

lemma routeLead_prod_cacheAfter:
  assumes "validateLead (Some l)" and "leadZip l = Some z"
  shows "cacheAfter (routeLead_prod cfg e draws cache (Some l) [x]) =
           (case cache (cacheKey z (zipCode x)) of
              None \<Rightarrow> cache(cacheKey z (zipCode x) \<mapsto> calculateDistanceReal (geo e) z (zipCode x))
            | Some d \<Rightarrow> cache)"
  using assms
  by (simp add: routeLead_prod_def Let_def split_beta getNearestLocationsReal_def
      split: option.splits)

lemma withDistance_prod_in_range:
  assumes "inRange cfg e z x" and "cachedInRange cfg cache z x"
  shows "distance (withDistance_prod e cache z x) \<le> ZIP_RADIUS_MILES cfg"
  using assms
  by (simp add: withDistance_prod_def inRange_def cachedInRange_def split: option.splits)

lemma cachedInRange_after:
  assumes v: "validateLead (Some l)" and zip: "leadZip l = Some z"
    and r: "inRange cfg e z x"
    and c: "cachedInRange cfg cache z' x"
  shows "cachedInRange cfg (cacheAfter (routeLead_prod cfg e draws cache (Some l) [x])) z' x"
  using r c unfolding routeLead_prod_cacheAfter [OF v zip]
  by (auto simp add: cachedInRange_def inRange_def split: option.splits)

lemma routeAll_prod_single:
  assumes "\<forall>(d, l)\<in>set calls. validateLead (Some l) \<and>
             (\<exists>z. leadZip l = Some z \<and> inRange cfg e z x \<and> cachedInRange cfg cache z x) \<and>
             hasCapacity (getLocationCapacityReal e d 0 (locId x))"
    and "status x = ''active''"
  shows "list_all (routedTo x) (routeAll_prod cfg e cache calls [x])"
  using assms
proof (induction calls arbitrary: cache)
  case Nil
  then show ?case by simp
next
  case (Cons call calls)
  obtain d l where call: "call = (d, l)" by (cases call)
  from Cons.prems(1) call obtain z where
    v: "validateLead (Some l)" and zip: "leadZip l = Some z"
    and r: "inRange cfg e z x" and c: "cachedInRange cfg cache z x"
    and cap: "hasCapacity (getLocationCapacityReal e d 0 (locId x))"
    by auto
  let ?out = "routeLead_prod cfg e d cache (Some l) [x]"
  have first: "routedTo x (result ?out)"
    using routeLead_prod_single
      [OF v zip Cons.prems(2) cap withDistance_prod_in_range [OF r c]] .
  have "\<forall>(d', l')\<in>set calls. validateLead (Some l') \<and>
             (\<exists>z'. leadZip l' = Some z' \<and> inRange cfg e z' x \<and>
                   cachedInRange cfg (cacheAfter ?out) z' x) \<and>
             hasCapacity (getLocationCapacityReal e d' 0 (locId x))"
  proof (intro ballI, clarify)
    fix d' l'
    assume "(d', l') \<in> set calls"
    with Cons.prems(1) obtain z' where
      h: "validateLead (Some l')" "leadZip l' = Some z'" "inRange cfg e z' x"
        "cachedInRange cfg cache z' x" "hasCapacity (getLocationCapacityReal e d' 0 (locId x))"
      by auto
    from cachedInRange_after [OF v zip r h(4)] h
    show "validateLead (Some l') \<and>
             (\<exists>z'. leadZip l' = Some z' \<and> inRange cfg e z' x \<and>
                   cachedInRange cfg (cacheAfter ?out) z' x) \<and>
             hasCapacity (getLocationCapacityReal e d' 0 (locId x))"
      by blast
  qed
  from Cons.IH [OF this Cons.prems(2)] first show ?case
    by (simp add: call Let_def)
qed

lemma length_routeAll_prod: "length (routeAll_prod cfg e cache calls locations) = length calls"
  by (induction calls arbitrary: cache) (auto simp add: Let_def)

text \<open>
  C7, as amended. Routing reserves nothing: no call writes or consumes capacity. When
  route calls are made one after another against a single location in range that is
  available, every one of them is routed to that location, whatever the number of calls
  and the number of slots the location has left. (For the class, available is capacity in
  the reading of each call and the status \<^verbatim>\<open>active\<close>, and a cached distance counts as
  the distance.)
\<close>

theorem routeAll_all_routed:
  "((\<forall>l\<in>set leads. \<exists>z. leadZip l = Some z \<and> z \<noteq> [] \<and> inRange cfg e z x) \<and>
    isAvailable cfg e x \<longrightarrow>
      length (routeAll cfg e leads [x]) = length leads \<and>
      list_all (routedTo x) (routeAll cfg e leads [x])) \<and>
   ((\<forall>(d, l)\<in>set calls. validateLead (Some l) \<and>
        (\<exists>z. leadZip l = Some z \<and> inRange cfg e z x \<and> cachedInRange cfg cache z x) \<and>
        hasCapacity (getLocationCapacityReal e d 0 (locId x))) \<and>
    status x = ''active'' \<longrightarrow>
      length (routeAll_prod cfg e cache calls [x]) = length calls \<and>
      list_all (routedTo x) (routeAll_prod cfg e cache calls [x]))"
proof (intro conjI impI)
  assume a: "(\<forall>l\<in>set leads. \<exists>z. leadZip l = Some z \<and> z \<noteq> [] \<and> inRange cfg e z x) \<and>
    isAvailable cfg e x"
  show "length (routeAll cfg e leads [x]) = length leads"
    by (simp add: routeAll_def)
  have "routedTo x (result (routeLead cfg e (Some l) [x]))" if "l \<in> set leads" for l
  proof -
    from a that obtain z where "leadZip l = Some z" "z \<noteq> []" "inRange cfg e z x" by blast
    then show ?thesis using routeLead_single a by blast
  qed
  then show "list_all (routedTo x) (routeAll cfg e leads [x])"
    by (simp add: routeAll_def list_all_iff)
next
  assume b: "(\<forall>(d, l)\<in>set calls. validateLead (Some l) \<and>
        (\<exists>z. leadZip l = Some z \<and> inRange cfg e z x \<and> cachedInRange cfg cache z x) \<and>
        hasCapacity (getLocationCapacityReal e d 0 (locId x))) \<and>
    status x = ''active''"
  show "length (routeAll_prod cfg e cache calls [x]) = length calls"
    by (rule length_routeAll_prod)
  from b show "list_all (routedTo x) (routeAll_prod cfg e cache calls [x])"
    using routeAll_prod_single [of calls cfg e x cache] by blast
qed

lemma cap_oneSlot:
  "checkLocationCapacity CONFIG envOneSlot hub =
     \<lparr>hasCapacity = True, availableSlots = 1, isOperational = True\<rparr>"
  "getLocationCapacityReal envOneSlot noDraws 0 (locId hub) =
     \<lparr>hasCapacity = True, availableSlots = 1, isOperational = True\<rparr>"
  by (simp_all add: checkLocationCapacity_def getLocationCapacityReal_def envOneSlot_def
      hub_def)

theorem routeAll_all_routed_witness:
  "isAvailable CONFIG envOneSlot hub \<and> slotsAt CONFIG envOneSlot hub = 1 \<and>
   inRange CONFIG envOneSlot ''90210'' hub \<and>
   validateLead (Some standardLead) \<and> validateLead (Some priorityLead) \<and>
   list_all (routedTo hub) (routeAll CONFIG envOneSlot [standardLead, priorityLead] [hub]) \<and>
   list_all (routedTo hub)
     (routeAll_prod CONFIG envOneSlot Map.empty
        [(noDraws, standardLead), (noDraws, priorityLead)] [hub])"
proof -
  have av: "isAvailable CONFIG envOneSlot hub" "slotsAt CONFIG envOneSlot hub = 1"
    by (simp_all add: isAvailable_def slotsAt_def cap_oneSlot)
  have r: "inRange CONFIG envOneSlot ''90210'' hub"
    by (simp add: inRange_def env_geo zips dist_LA CONFIG_fields)
  have c: "cachedInRange CONFIG Map.empty ''90210'' hub"
    by (simp add: cachedInRange_def)
  have h1: "\<forall>l\<in>set [standardLead, priorityLead].
      \<exists>z. leadZip l = Some z \<and> z \<noteq> [] \<and> inRange CONFIG envOneSlot z hub"
    using r by (simp add: lead_zips more_zips)
  have h2: "\<forall>(d, l)\<in>set [(noDraws, standardLead), (noDraws, priorityLead)].
      validateLead (Some l) \<and>
      (\<exists>z. leadZip l = Some z \<and> inRange CONFIG envOneSlot z hub \<and>
           cachedInRange CONFIG Map.empty z hub) \<and>
      hasCapacity (getLocationCapacityReal envOneSlot d 0 (locId hub))"
    using r c by (simp add: lead_zips more_zips valid_leads cap_oneSlot)
  from routeAll_all_routed
    [of "[standardLead, priorityLead]" CONFIG envOneSlot hub
      "[(noDraws, standardLead), (noDraws, priorityLead)]" Map.empty]
    h1 h2 av r valid_leads statuses(1)
  show ?thesis by blast
qed

text \<open>
  C7 as stated fails: the store says that \<^verbatim>\<open>loc_001\<close> has one slot left, and two calls
  made one after another are both routed to it, by the code action and by the class.
\<close>

theorem routeAll_one_slot_counterexample:
  "slotsAt CONFIG envOneSlot hub = 1 \<and>
   routeAll CONFIG envOneSlot [standardLead, priorityLead] [hub] =
     [Routed \<lparr>loc = hub, distance = 0,
               capacity = \<lparr>hasCapacity = True, availableSlots = 1, isOperational = True\<rparr>\<rparr>
        ''Standard lead routed to closest available location'' False,
      Routed \<lparr>loc = hub, distance = 0,
               capacity = \<lparr>hasCapacity = True, availableSlots = 1, isOperational = True\<rparr>\<rparr>
        ''High-value lead routed to closest available location'' True] \<and>
   routeAll_prod CONFIG envOneSlot Map.empty
       [(noDraws, standardLead), (noDraws, priorityLead)] [hub] =
     [Routed \<lparr>loc = hub, distance = 0,
               capacity = \<lparr>hasCapacity = True, availableSlots = 1, isOperational = True\<rparr>\<rparr>
        ''Lead routed to nearest available location'' False,
      Routed \<lparr>loc = hub, distance = 0,
               capacity = \<lparr>hasCapacity = True, availableSlots = 1, isOperational = True\<rparr>\<rparr>
        ''High-value lead routed to optimal location'' True]"
proof -
  let ?c = "\<lparr>loc = hub, distance = 0,
             capacity = \<lparr>hasCapacity = True, availableSlots = 1, isOperational = True\<rparr>\<rparr>"
  have near: "getNearestLocations CONFIG envOneSlot ''90210'' [hub] = [\<lparr>loc = hub, distance = 0\<rparr>]"
    by (simp add: getNearestLocations_def withDistance_def env_geo zips dist_LA CONFIG_fields)
  have core: "result (routeLead CONFIG envOneSlot (Some standardLead) [hub]) =
        Routed ?c ''Standard lead routed to closest available location'' False"
      "result (routeLead CONFIG envOneSlot (Some priorityLead) [hub]) =
        Routed ?c ''High-value lead routed to closest available location'' True"
    by (simp_all add: routeLead_def Let_def lead_zips more_zips near withCapacity_def
        cap_oneSlot selectByScore_def env_geo score_standard score_priority CONFIG_fields
        priorities)
  have near1: "getNearestLocationsReal CONFIG envOneSlot Map.empty ''90210'' [hub] =
      ([\<lparr>loc = hub, distance = 0\<rparr>], [''distance_90210_90210'' \<mapsto> 0])"
    by (simp add: getNearestLocationsReal_def withDistance_prod_def env_geo zips dist_LA
        CONFIG_fields cacheKey_def)
  have near2: "getNearestLocationsReal CONFIG envOneSlot [''distance_90210_90210'' \<mapsto> 0]
      ''90210'' [hub] = ([\<lparr>loc = hub, distance = 0\<rparr>], [''distance_90210_90210'' \<mapsto> 0])"
    by (simp add: getNearestLocationsReal_def withDistance_prod_def zips CONFIG_fields
        cacheKey_def)
  have sel: "selectOptimalLocation CONFIG l [?c] = Some ?c" for l
    by (simp add: selectOptimalLocation_def statuses priorities split: option.splits)
  have cl1: "routeLead_prod CONFIG envOneSlot noDraws Map.empty (Some standardLead) [hub] =
      \<lparr>result = Routed ?c ''Lead routed to nearest available location'' False,
       leadAfter = Some (standardLead\<lparr>finalScore := Some (Score 50)\<rparr>),
       geoLookups = [''90210'', ''90210''], capacityFetches = [''loc_001''],
       cacheAfter = [''distance_90210_90210'' \<mapsto> 0]\<rparr>"
    using valid_leads(1)
    by (simp add: routeLead_prod_def Let_def lead_zips near1 checkLocationCapacities_def
        cap_oneSlot sel getRoutingReason_def env_geo score_standard_prod CONFIG_fields
        priorities zips cacheKey_def)
      (simp add: envOneSlot_def hub_def)
  have cl2: "result (routeLead_prod CONFIG envOneSlot noDraws [''distance_90210_90210'' \<mapsto> 0]
        (Some priorityLead) [hub]) =
      Routed ?c ''High-value lead routed to optimal location'' True"
    using valid_leads(2)
    by (simp add: routeLead_prod_def Let_def more_zips near2 checkLocationCapacities_def
        cap_oneSlot sel getRoutingReason_def env_geo score_priority CONFIG_fields)
  show ?thesis
    by (simp add: routeAll_def core cl1 cl2 slotsAt_def cap_oneSlot Let_def)
qed

end
